theory Spec2Isabelle
  imports Main "HOL-Library.Word"
begin

unbundle bit_operations_syntax

section \<open>Basic types and errors\<close>

text \<open>
  The integer types of the protocol: product indexes, product sizes and chunk indexes
  are unsigned 32-bit values, chunk sizes are unsigned 16-bit values, message
  identifiers and payload bytes are unsigned 8-bit values. All arithmetic on them wraps.
\<close>

type_synonym ProdIndex = "32 word"
type_synonym ProdSize = "32 word"
type_synonym ChunkIndex = "32 word"
type_synonym ChunkSize = "16 word"
type_synonym byte = "8 word"

text \<open>
  Exceptions are values. The argument of an exception names the \<^verbatim>\<open>throw\<close> site
  that raised it, in place of the message string.
\<close>

datatype cause =
    ChunkIndexTooBig
  | ChunkOffsetTooBig
  | ZeroCanonSize
  | NotVersionMessage
  | UnsupportedVersion "32 word"
  | ChunkStillHasData
  | ChunkNotDrained
  | InvalidMessageType byte
  | ConnectionClosed

datatype error =
    InvalidArgument cause
  | LogicError cause
  | StdLogicError cause
  | RuntimeError cause
  | SystemError cause
  | ShortMessage

section \<open>ChunkInfo.cpp\<close>

text \<open>
  The canonical chunk size is a file-level variable of ChunkInfo.cpp, initialised to
  \<^verbatim>\<open>32768 - 8\<close> and changed only by \<^verbatim>\<open>setCanonSize\<close>, which refuses zero. The
  functions below take its current value as their first argument.
\<close>

definition initCanonSize :: ChunkSize where
  "initCanonSize = 32768 - 8"

definition setCanonSize :: "ChunkSize \<Rightarrow> ChunkSize \<Rightarrow> error + ChunkSize" where
  "setCanonSize canonSize newSize =
     (if newSize = 0 then Inl (InvalidArgument ZeroCanonSize) else Inr newSize)"

record ChunkInfo =
  prodIndex :: ProdIndex
  prodSize :: ProdSize
  chunkIndex :: ChunkIndex
  hashCode :: "64 word"

text \<open>
  \<^verbatim>\<open>auto numChunks = (prodSize+getCanonSize()-1)/getCanonSize();\<close> The operands are
  converted to \<^verbatim>\<open>unsigned\<close>, so the sum wraps at \<open>2 ^ 32\<close>.
\<close>

definition numChunks :: "ChunkSize \<Rightarrow> ProdSize \<Rightarrow> 32 word" where
  "numChunks canonSize pSize = (pSize + ucast canonSize - 1) div ucast canonSize"

text \<open>The constructor \<^verbatim>\<open>ChunkInfo(prodIndex, prodSize, chunkIndex)\<close>.\<close>

definition ChunkInfo_ctor ::
  "ChunkSize \<Rightarrow> ProdIndex \<Rightarrow> ProdSize \<Rightarrow> ChunkIndex \<Rightarrow> error + ChunkInfo" where
  "ChunkInfo_ctor canonSize pIndex pSize cIndex =
     (if cIndex \<noteq> 0 \<and> cIndex \<ge> numChunks canonSize pSize
      then Inl (InvalidArgument ChunkIndexTooBig)
      else Inr \<lparr>prodIndex = pIndex, prodSize = pSize, chunkIndex = cIndex, hashCode = 0\<rparr>)"

text \<open>\<^verbatim>\<open>operator bool\<close>, \<^verbatim>\<open>isEarlierThan\<close> and \<^verbatim>\<open>operator==\<close>.\<close>

definition ChunkInfo_bool :: "ChunkSize \<Rightarrow> ChunkInfo \<Rightarrow> bool" where
  "ChunkInfo_bool canonSize ci \<longleftrightarrow> prodSize ci \<noteq> 0 \<and> canonSize \<noteq> 0"

definition isEarlierThan :: "ChunkInfo \<Rightarrow> ChunkInfo \<Rightarrow> bool" where
  "isEarlierThan lhs rhs \<longleftrightarrow>
     prodIndex lhs < prodIndex rhs \<or>
     (prodIndex lhs = prodIndex rhs \<and> chunkIndex lhs < chunkIndex rhs)"

definition ChunkInfo_eq :: "ChunkInfo \<Rightarrow> ChunkInfo \<Rightarrow> bool" where
  "ChunkInfo_eq this that \<longleftrightarrow>
     prodIndex this = prodIndex that \<and> prodSize this = prodSize that \<and>
     chunkIndex this = chunkIndex that"

text \<open>
  Modelled from the spec: \<^verbatim>\<open>ChunkInfo::getOffset\<close> is declared in ChunkInfo.h, which
  is not among the sources. The spec gives the byte offset of a chunk as
  \<open>ChunkIndex \<times> canonicalChunkSize\<close>; the product of a 32-bit chunk index and the
  16-bit canonical size is taken in 32-bit unsigned arithmetic.
\<close>

definition getOffset :: "ChunkSize \<Rightarrow> ChunkIndex \<Rightarrow> 32 word" where
  "getOffset canonSize cIndex = cIndex * ucast canonSize"

text \<open>The static \<^verbatim>\<open>ChunkInfo::getSize(prodSize, chunkIndex)\<close>.\<close>

definition getSize :: "ChunkSize \<Rightarrow> ProdSize \<Rightarrow> ChunkIndex \<Rightarrow> error + ChunkSize" where
  "getSize canonSize pSize cIndex =
     (let offset = getOffset canonSize cIndex in
      if offset \<ge> pSize then Inl (InvalidArgument ChunkOffsetTooBig)
      else
        let remaining = pSize - offset in
        Inr (if ucast canonSize < remaining then canonSize else ucast remaining))"

text \<open>The mathematical chunk count \<open>\<lceil>s / c\<rceil>\<close> of the data model, on natural numbers.\<close>

definition ceilDiv :: "nat \<Rightarrow> nat \<Rightarrow> nat" where
  "ceilDiv s c = (s + c - 1) div c"

text \<open>The size of chunk \<open>i\<close> as a number; a call that throws contributes nothing.\<close>

definition chunkBytes :: "ChunkSize \<Rightarrow> ProdSize \<Rightarrow> nat \<Rightarrow> nat" where
  "chunkBytes canonSize pSize i =
     (case getSize canonSize pSize (of_nat i) of Inl e \<Rightarrow> 0 | Inr n \<Rightarrow> unat n)"

section \<open>Codec\<close>

text \<open>
  Modelled from the spec: Codec.h, with the classes \<^verbatim>\<open>Encoder\<close> and \<^verbatim>\<open>Decoder\<close>, is not
  among the sources. The spec (4.1) gives the primitive encodings, all in network byte
  order: unsigned 8/16/32-bit integers at their fixed width, and a string as a 16-bit
  length followed by the raw bytes. An encoder appends to the bytes of the message; a
  decoder takes a primitive off the front of the bytes that remain and fails with
  ShortMessage when the message ends before the primitive does.
\<close>

definition encode_u16 :: "16 word \<Rightarrow> byte list" where
  "encode_u16 w = [ucast (drop_bit 8 w), ucast w]"

definition encode_u32 :: "32 word \<Rightarrow> byte list" where
  "encode_u32 w = [ucast (drop_bit 24 w), ucast (drop_bit 16 w), ucast (drop_bit 8 w), ucast w]"

definition encode_string :: "byte list \<Rightarrow> byte list" where
  "encode_string s = encode_u16 (word_of_nat (length s)) @ s"

fun decode_u8 :: "byte list \<Rightarrow> error + (byte \<times> byte list)" where
  "decode_u8 (b # rest) = Inr (b, rest)"
| "decode_u8 [] = Inl ShortMessage"

fun decode_u16 :: "byte list \<Rightarrow> error + (16 word \<times> byte list)" where
  "decode_u16 (b1 # b0 # rest) = Inr (push_bit 8 (ucast b1) OR ucast b0, rest)"
| "decode_u16 _ = Inl ShortMessage"

fun decode_u32 :: "byte list \<Rightarrow> error + (32 word \<times> byte list)" where
  "decode_u32 (b3 # b2 # b1 # b0 # rest) =
     Inr (push_bit 24 (ucast b3) OR push_bit 16 (ucast b2) OR push_bit 8 (ucast b1) OR ucast b0,
          rest)"
| "decode_u32 _ = Inl ShortMessage"

definition decode_string :: "byte list \<Rightarrow> error + (byte list \<times> byte list)" where
  "decode_string bs =
     (case decode_u16 bs of
        Inl e \<Rightarrow> Inl e
      | Inr (n, rest) \<Rightarrow>
          if length rest < unat n then Inl ShortMessage
          else Inr (take (unat n) rest, drop (unat n) rest))"

subsection \<open>ProdIndex, VersionMsg and ProdInfo\<close>

text \<open>
  Modelled from the spec: ProdIndex.cpp, VersionMsg.h and ProdInfo.cpp are not among the
  sources. The spec gives their wire forms: a ProdIndex is 4 bytes, a VersionMsg is the
  uint32 version, and a ProdInfo is the name (2+n bytes), the ProdIndex (4), the ProdSize
  (4) and the canonical chunk size (2). The protocol version is passed to every
  serializer and ignored.
\<close>

definition ProdIndex_serialize :: "ProdIndex \<Rightarrow> 32 word \<Rightarrow> byte list" where
  "ProdIndex_serialize index version = encode_u32 index"

definition ProdIndex_deserialize :: "byte list \<Rightarrow> 32 word \<Rightarrow> error + (ProdIndex \<times> byte list)" where
  "ProdIndex_deserialize bs version = decode_u32 bs"

record VersionMsg =
  msgVersion :: "32 word"

definition VersionMsg_serialize :: "VersionMsg \<Rightarrow> 32 word \<Rightarrow> byte list" where
  "VersionMsg_serialize msg version = encode_u32 (msgVersion msg)"

definition VersionMsg_deserialize ::
  "byte list \<Rightarrow> 32 word \<Rightarrow> error + (VersionMsg \<times> byte list)" where
  "VersionMsg_deserialize bs version =
     (case decode_u32 bs of
        Inl e \<Rightarrow> Inl e
      | Inr (v, rest) \<Rightarrow> Inr (\<lparr>msgVersion = v\<rparr>, rest))"

record ProdInfo =
  infoName :: "byte list"
  infoIndex :: ProdIndex
  infoSize :: ProdSize
  infoChunkSize :: ChunkSize

definition ProdInfo_serialize :: "ProdInfo \<Rightarrow> 32 word \<Rightarrow> byte list" where
  "ProdInfo_serialize info version =
     encode_string (infoName info) @ ProdIndex_serialize (infoIndex info) version @
     encode_u32 (infoSize info) @ encode_u16 (infoChunkSize info)"

definition ProdInfo_deserialize ::
  "byte list \<Rightarrow> 32 word \<Rightarrow> error + (ProdInfo \<times> byte list)" where
  "ProdInfo_deserialize bs version =
     (case decode_string bs of
        Inl e \<Rightarrow> Inl e
      | Inr (nm, r1) \<Rightarrow>
          (case ProdIndex_deserialize r1 version of
             Inl e \<Rightarrow> Inl e
           | Inr (idx, r2) \<Rightarrow>
               (case decode_u32 r2 of
                  Inl e \<Rightarrow> Inl e
                | Inr (sz, r3) \<Rightarrow>
                    (case decode_u16 r3 of
                       Inl e \<Rightarrow> Inl e
                     | Inr (cs, r4) \<Rightarrow>
                         Inr (\<lparr>infoName = nm, infoIndex = idx, infoSize = sz,
                               infoChunkSize = cs\<rparr>, r4)))))"

subsection \<open>ChunkInfo.cpp: serialization\<close>

text \<open>
  \<^verbatim>\<open>ChunkInfo::serialize\<close> encodes the product index, the product size and the chunk
  index, in this order.
\<close>

definition ChunkInfo_serialize :: "ChunkInfo \<Rightarrow> 32 word \<Rightarrow> byte list" where
  "ChunkInfo_serialize ci version =
     ProdIndex_serialize (prodIndex ci) version @ encode_u32 (prodSize ci) @
     encode_u32 (chunkIndex ci)"

text \<open>
  The constructor \<^verbatim>\<open>ChunkInfo(Decoder&, unsigned)\<close> starts from the default object and
  assigns the three decoded fields, with no check of the chunk index.
\<close>

definition ChunkInfo_decode :: "byte list \<Rightarrow> 32 word \<Rightarrow> error + (ChunkInfo \<times> byte list)" where
  "ChunkInfo_decode bs version =
     (case ProdIndex_deserialize bs version of
        Inl e \<Rightarrow> Inl e
      | Inr (p, r1) \<Rightarrow>
          (case decode_u32 r1 of
             Inl e \<Rightarrow> Inl e
           | Inr (s, r2) \<Rightarrow>
               (case decode_u32 r2 of
                  Inl e \<Rightarrow> Inl e
                | Inr (i, r3) \<Rightarrow>
                    Inr (\<lparr>prodIndex = p, prodSize = s, chunkIndex = i, hashCode = 0\<rparr>, r3))))"

text \<open>
  \<^verbatim>\<open>ChunkInfo::deserialize\<close> decodes with that constructor and returns a new object
  built from the decoded fields by the checking constructor.
\<close>

definition ChunkInfo_deserialize ::
  "ChunkSize \<Rightarrow> byte list \<Rightarrow> 32 word \<Rightarrow> error + (ChunkInfo \<times> byte list)" where
  "ChunkInfo_deserialize canonSize bs version =
     (case ChunkInfo_decode bs version of
        Inl e \<Rightarrow> Inl e
      | Inr (ci, rest) \<Rightarrow>
          (case ChunkInfo_ctor canonSize (prodIndex ci) (prodSize ci) (chunkIndex ci) of
             Inl e \<Rightarrow> Inl e
           | Inr ci' \<Rightarrow> Inr (ci', rest)))"

section \<open>Transport, channels and latent chunks\<close>

text \<open>
  Modelled from the spec: SctpSock.cpp, Channel.h and Chunk.h are not among the
  sources. A message of the multi-stream transport is its stream number and its bytes.
  The socket holds the messages the remote peer has sent and not yet been read, oldest
  first, followed by the close of the connection, and the messages sent to the remote
  peer. \<^verbatim>\<open>SctpSock::getSize\<close> returns the size of the current message as a
  \<^verbatim>\<open>uint32_t\<close>, and 0 when the remote peer has closed the connection (SctpSock.h).
\<close>

record Msg =
  streamId :: nat
  payload :: "byte list"

record SctpSock =
  incoming :: "Msg list"
  outgoing :: "Msg list"

definition SctpSock_getSize :: "Msg list \<Rightarrow> 32 word" where
  "SctpSock_getSize q = (case q of [] \<Rightarrow> 0 | m # ms \<Rightarrow> word_of_nat (length (payload m)))"

definition SctpSock_send :: "SctpSock \<Rightarrow> nat \<Rightarrow> byte list \<Rightarrow> SctpSock" where
  "SctpSock_send sock sid bytes =
     sock\<lparr>outgoing := outgoing sock @ [\<lparr>streamId = sid, payload = bytes\<rparr>]\<rparr>"

text \<open>
  A channel's \<^verbatim>\<open>recv\<close> deserializes the current message with the deserializer of the
  channel's type and consumes the message.
\<close>

definition Channel_recv ::
  "(byte list \<Rightarrow> 32 word \<Rightarrow> error + ('t \<times> byte list)) \<Rightarrow> Msg \<Rightarrow> 32 word \<Rightarrow> error + 't" where
  "Channel_recv deserialize m version =
     (case deserialize (payload m) version of Inl e \<Rightarrow> Inl e | Inr (x, rest) \<Rightarrow> Inr x)"

text \<open>
  A latent chunk is the chunk's information and a handle on the chunk's bytes, which are
  still in the transport. \<^verbatim>\<open>hasData\<close> is true until the bytes have been drained or
  discarded.
\<close>

record LatentChunk =
  latentInfo :: ChunkInfo
  latentData :: "byte list"
  hasData :: bool

definition drainData :: "LatentChunk \<Rightarrow> byte list \<times> LatentChunk" where
  "drainData chunk = (latentData chunk, chunk\<lparr>latentData := [], hasData := False\<rparr>)"

definition discard :: "LatentChunk \<Rightarrow> LatentChunk" where
  "discard chunk = chunk\<lparr>latentData := [], hasData := False\<rparr>"

definition LatentChunk_deserialize ::
  "ChunkSize \<Rightarrow> byte list \<Rightarrow> 32 word \<Rightarrow> error + (LatentChunk \<times> byte list)" where
  "LatentChunk_deserialize canonSize bs version =
     (case ChunkInfo_deserialize canonSize bs version of
        Inl e \<Rightarrow> Inl e
      | Inr (ci, rest) \<Rightarrow> Inr (\<lparr>latentInfo = ci, latentData = rest, hasData = True\<rparr>, []))"

section \<open>Peer.cpp\<close>

text \<open>The enumeration \<^verbatim>\<open>SctpStreamId\<close>, numbered from 0 in the order of its declaration.\<close>

definition VERSION_STREAM_ID :: nat where "VERSION_STREAM_ID = 0"
definition PROD_NOTICE_STREAM_ID :: nat where "PROD_NOTICE_STREAM_ID = Suc VERSION_STREAM_ID"
definition CHUNK_NOTICE_STREAM_ID :: nat where "CHUNK_NOTICE_STREAM_ID = Suc PROD_NOTICE_STREAM_ID"
definition PROD_REQ_STREAM_ID :: nat where "PROD_REQ_STREAM_ID = Suc CHUNK_NOTICE_STREAM_ID"
definition CHUNK_REQ_STREAM_ID :: nat where "CHUNK_REQ_STREAM_ID = Suc PROD_REQ_STREAM_ID"
definition CHUNK_STREAM_ID :: nat where "CHUNK_STREAM_ID = Suc CHUNK_REQ_STREAM_ID"
definition NUM_STREAM_IDS :: nat where "NUM_STREAM_IDS = Suc CHUNK_STREAM_ID"

definition getNumStreams :: nat where
  "getNumStreams = NUM_STREAM_IDS"

text \<open>
  The receiver of the peer's messages, \<^verbatim>\<open>PeerMsgRcvr\<close>, is an interface: each upcall
  takes the receiving application's state and returns the new state or throws.
  \<^verbatim>\<open>recvData\<close> also returns the latent chunk as the upcall left it.
\<close>

record 'a PeerMsgRcvr =
  recvNoticeProd :: "ProdInfo \<Rightarrow> 'a \<Rightarrow> error + 'a"
  recvNoticeChunk :: "ChunkInfo \<Rightarrow> 'a \<Rightarrow> error + 'a"
  recvRequestProd :: "ProdIndex \<Rightarrow> 'a \<Rightarrow> error + 'a"
  recvRequestChunk :: "ChunkInfo \<Rightarrow> 'a \<Rightarrow> error + 'a"
  recvData :: "LatentChunk \<Rightarrow> 'a \<Rightarrow> error + ('a \<times> LatentChunk)"

record Peer =
  peerVersion :: "32 word"
  peerSock :: SctpSock

text \<open>
  \<^verbatim>\<open>getVersion\<close>: the current message must be on the version stream; the version
  channel then reads it. A connection that the remote peer closed before sending
  anything has no message to read, which the socket reports as a system error.
\<close>

definition getVersion :: "SctpSock \<Rightarrow> 32 word \<Rightarrow> (error + 32 word) \<times> SctpSock" where
  "getVersion sock version =
     (case incoming sock of
        [] \<Rightarrow> (Inl (SystemError ConnectionClosed), sock)
      | m # ms \<Rightarrow>
          if streamId m \<noteq> VERSION_STREAM_ID then (Inl (StdLogicError NotVersionMessage), sock)
          else
            (case Channel_recv VersionMsg_deserialize m version of
               Inl e \<Rightarrow> (Inl e, sock\<lparr>incoming := ms\<rparr>)
             | Inr msg \<Rightarrow> (Inr (msgVersion msg), sock\<lparr>incoming := ms\<rparr>)))"

text \<open>
  The constructor \<^verbatim>\<open>Impl(PeerMsgRcvr&, SctpSock&)\<close>: the version is set to 0, sent on
  the version channel, and compared with the version read from the remote peer. The
  socket is the caller's, so it is returned also when the constructor throws.
\<close>

definition Peer_ctor :: "SctpSock \<Rightarrow> (error + Peer) \<times> SctpSock" where
  "Peer_ctor sock =
     (let version = 0;
          sock1 = SctpSock_send sock VERSION_STREAM_ID
                    (VersionMsg_serialize \<lparr>msgVersion = version\<rparr> version)
      in case getVersion sock1 version of
           (Inl e, sock2) \<Rightarrow> (Inl e, sock2)
         | (Inr vers, sock2) \<Rightarrow>
             if vers \<noteq> version then (Inl (LogicError (UnsupportedVersion vers)), sock2)
             else (Inr \<lparr>peerVersion = version, peerSock = sock2\<rparr>, sock2))"

text \<open>The body of the \<^verbatim>\<open>switch\<close> of \<^verbatim>\<open>runReceiver\<close>, for the current message.\<close>

definition dispatch ::
  "'a PeerMsgRcvr \<Rightarrow> ChunkSize \<Rightarrow> 32 word \<Rightarrow> 'a \<Rightarrow> Msg \<Rightarrow> error + 'a" where
  "dispatch rcvr canonSize version a m =
     (if streamId m = PROD_NOTICE_STREAM_ID then
        (case Channel_recv ProdInfo_deserialize m version of
           Inl e \<Rightarrow> Inl e | Inr info \<Rightarrow> recvNoticeProd rcvr info a)
      else if streamId m = CHUNK_NOTICE_STREAM_ID then
        (case Channel_recv (ChunkInfo_deserialize canonSize) m version of
           Inl e \<Rightarrow> Inl e | Inr info \<Rightarrow> recvNoticeChunk rcvr info a)
      else if streamId m = PROD_REQ_STREAM_ID then
        (case Channel_recv ProdIndex_deserialize m version of
           Inl e \<Rightarrow> Inl e | Inr index \<Rightarrow> recvRequestProd rcvr index a)
      else if streamId m = CHUNK_REQ_STREAM_ID then
        (case Channel_recv (ChunkInfo_deserialize canonSize) m version of
           Inl e \<Rightarrow> Inl e | Inr info \<Rightarrow> recvRequestChunk rcvr info a)
      else if streamId m = CHUNK_STREAM_ID then
        (case Channel_recv (LatentChunk_deserialize canonSize) m version of
           Inl e \<Rightarrow> Inl e
         | Inr chunk \<Rightarrow>
             (case recvData rcvr chunk a of
                Inl e \<Rightarrow> Inl e
              | Inr (a', chunk') \<Rightarrow>
                  if hasData chunk' then Inl (LogicError ChunkStillHasData) else Inr a'))
      else Inr a)"

text \<open>
  \<^verbatim>\<open>runReceiver\<close>: the loop ends when the size of the current message is 0; every other
  iteration consumes the current message or throws.
\<close>

fun runReceiver ::
  "'a PeerMsgRcvr \<Rightarrow> ChunkSize \<Rightarrow> 32 word \<Rightarrow> 'a \<Rightarrow> Msg list \<Rightarrow> error + 'a" where
  "runReceiver rcvr canonSize version a [] = Inr a"
| "runReceiver rcvr canonSize version a (m # ms) =
     (if SctpSock_getSize (m # ms) = 0 then Inr a
      else
        (case dispatch rcvr canonSize version a m of
           Inl e \<Rightarrow> Inl e
         | Inr a' \<Rightarrow> runReceiver rcvr canonSize version a' ms))"

text \<open>The send operations, one per channel.\<close>

definition sendProdInfo :: "Peer \<Rightarrow> ProdInfo \<Rightarrow> Peer" where
  "sendProdInfo p info =
     p\<lparr>peerSock := SctpSock_send (peerSock p) PROD_NOTICE_STREAM_ID
                      (ProdInfo_serialize info (peerVersion p))\<rparr>"

definition sendChunkInfo :: "Peer \<Rightarrow> ChunkInfo \<Rightarrow> Peer" where
  "sendChunkInfo p info =
     p\<lparr>peerSock := SctpSock_send (peerSock p) CHUNK_NOTICE_STREAM_ID
                      (ChunkInfo_serialize info (peerVersion p))\<rparr>"

definition sendProdRequest :: "Peer \<Rightarrow> ProdIndex \<Rightarrow> Peer" where
  "sendProdRequest p index =
     p\<lparr>peerSock := SctpSock_send (peerSock p) PROD_REQ_STREAM_ID
                      (ProdIndex_serialize index (peerVersion p))\<rparr>"

definition sendRequest :: "Peer \<Rightarrow> ChunkInfo \<Rightarrow> Peer" where
  "sendRequest p info =
     p\<lparr>peerSock := SctpSock_send (peerSock p) CHUNK_REQ_STREAM_ID
                      (ChunkInfo_serialize info (peerVersion p))\<rparr>"

text \<open>
  The member \<^verbatim>\<open>defaultMsgRcvr\<close> of a default-constructed peer: every upcall has an
  empty body, so \<^verbatim>\<open>recvData\<close> leaves the chunk as it was.
\<close>

definition defaultMsgRcvr :: "'a PeerMsgRcvr" where
  "defaultMsgRcvr =
     \<lparr>recvNoticeProd = (\<lambda>info a. Inr a),
      recvNoticeChunk = (\<lambda>info a. Inr a),
      recvRequestProd = (\<lambda>index a. Inr a),
      recvRequestChunk = (\<lambda>info a. Inr a),
      recvData = (\<lambda>chunk a. Inr (a, chunk))\<rparr>"

subsection \<open>The receiver of the peer test\<close>

text \<open>
  The receiver \<^verbatim>\<open>PerfMsgRcvr\<close> of \<^verbatim>\<open>Peer_test.cpp\<close>: notices and requests are
  ignored, a chunk is discarded.
\<close>

definition PerfMsgRcvr :: "'a PeerMsgRcvr" where
  "PerfMsgRcvr =
     \<lparr>recvNoticeProd = (\<lambda>info a. Inr a),
      recvNoticeChunk = (\<lambda>info a. Inr a),
      recvRequestProd = (\<lambda>index a. Inr a),
      recvRequestChunk = (\<lambda>info a. Inr a),
      recvData = (\<lambda>chunk a. Inr (a, discard chunk))\<rparr>"

section \<open>McastReceiver.cpp\<close>

text \<open>
  Modelled from the spec: McastSender.h, which declares \<^verbatim>\<open>MsgIdType\<close> and the two
  message identifiers, is not among the sources. The spec (6) gives a 1-byte message
  identifier, \<open>0x01\<close> for product information and \<open>0x02\<close> for a chunk.
\<close>

definition prodInfoMsgId :: byte where "prodInfoMsgId = 1"
definition chunkMsgId :: byte where "chunkMsgId = 2"

record 'a McastContentRcvr =
  receiveInfo :: "ProdInfo \<Rightarrow> 'a \<Rightarrow> error + 'a"
  receiveChunk :: "LatentChunk \<Rightarrow> 'a \<Rightarrow> error + ('a \<times> LatentChunk)"

text \<open>
  One iteration of \<^verbatim>\<open>operator()\<close>, on one datagram: the message identifier is
  decoded, the message is dispatched on it, and \<^verbatim>\<open>decoder.clear()\<close> drops what is
  left of the datagram.
\<close>

definition mcastIteration ::
  "'a McastContentRcvr \<Rightarrow> ChunkSize \<Rightarrow> 32 word \<Rightarrow> 'a \<Rightarrow> byte list \<Rightarrow> error + 'a" where
  "mcastIteration rcvr canonSize version a datagram =
     (case decode_u8 datagram of
        Inl e \<Rightarrow> Inl e
      | Inr (msgId, rest) \<Rightarrow>
          if msgId = prodInfoMsgId then
            (case ProdInfo_deserialize rest version of
               Inl e \<Rightarrow> Inl e
             | Inr (info, rest') \<Rightarrow> receiveInfo rcvr info a)
          else if msgId = chunkMsgId then
            (case LatentChunk_deserialize canonSize rest version of
               Inl e \<Rightarrow> Inl e
             | Inr (chunk, rest') \<Rightarrow>
                 (case receiveChunk rcvr chunk a of
                    Inl e \<Rightarrow> Inl e
                  | Inr (a', chunk') \<Rightarrow>
                      if hasData chunk' then Inl (LogicError ChunkNotDrained) else Inr a'))
          else Inl (RuntimeError (InvalidMessageType msgId)))"

text \<open>
  The loop has no exit but an exception. On the datagrams received so far it has
  either thrown or consumed them all and is waiting for the next one.
\<close>

datatype 'a mcastRun = Raised error | Waiting 'a

fun McastReceiver_run ::
  "'a McastContentRcvr \<Rightarrow> ChunkSize \<Rightarrow> 32 word \<Rightarrow> 'a \<Rightarrow> byte list list \<Rightarrow> 'a mcastRun" where
  "McastReceiver_run rcvr canonSize version a [] = Waiting a"
| "McastReceiver_run rcvr canonSize version a (d # ds) =
     (case mcastIteration rcvr canonSize version a d of
        Inl e \<Rightarrow> Raised e
      | Inr a' \<Rightarrow> McastReceiver_run rcvr canonSize version a' ds)"

section \<open>ProdStore.h\<close>

text \<open>
  The class \<^verbatim>\<open>AddStatus\<close>: a word of flags, \<^verbatim>\<open>IS_COMPLETE = 1\<close>, \<^verbatim>\<open>IS_NEW = 2\<close> and
  \<^verbatim>\<open>IS_DUPLICATE = 4\<close>; a setter ors its flag in and a getter tests it.
\<close>

type_synonym AddStatus = "32 word"

definition IS_COMPLETE :: "32 word" where "IS_COMPLETE = 1"
definition IS_NEW :: "32 word" where "IS_NEW = 2"
definition IS_DUPLICATE :: "32 word" where "IS_DUPLICATE = 4"

definition AddStatus_init :: AddStatus where "AddStatus_init = 0"
definition setNew :: "AddStatus \<Rightarrow> AddStatus" where "setNew status = status OR IS_NEW"
definition setComplete :: "AddStatus \<Rightarrow> AddStatus" where "setComplete status = status OR IS_COMPLETE"
definition setDuplicate :: "AddStatus \<Rightarrow> AddStatus" where "setDuplicate status = status OR IS_DUPLICATE"
definition isNew :: "AddStatus \<Rightarrow> bool" where "isNew status \<longleftrightarrow> status AND IS_NEW \<noteq> 0"
definition isComplete :: "AddStatus \<Rightarrow> bool" where "isComplete status \<longleftrightarrow> status AND IS_COMPLETE \<noteq> 0"
definition isDuplicate :: "AddStatus \<Rightarrow> bool" where "isDuplicate status \<longleftrightarrow> status AND IS_DUPLICATE \<noteq> 0"

subsection \<open>The product store\<close>

text \<open>
  Modelled from the spec: ProdStore.cpp and ProductImpl.cpp, with the bodies of
  \<^verbatim>\<open>ProdStore::add\<close> and \<^verbatim>\<open>ProductImpl::add\<close>, are not among the sources; ProdStore.h and
  ProductImpl.h only declare them. The spec (3, 4.5, 9) gives the store as a mapping from
  product index to an entry, with the order of insertion, and an entry as the optional
  ProdInfo, the set of chunk indexes present, the buffer, allocated with the product's
  size when the ProdInfo arrives, and the completion flag. The bytes of a chunk that
  arrives before the ProdInfo are kept by chunk index and copied into the buffer when the
  ProdInfo arrives. The chunk count of a ProdInfo is \<open>\<lceil>size / chunk size\<rceil>\<close> and the offset of
  chunk \<open>i\<close> is \<open>i\<close> times the chunk size. An entry is whole when its ProdInfo is present
  and every index below the chunk count is present.
\<close>

record ProductEntry =
  entryInfo :: "ProdInfo option"
  present :: "nat set"
  buffer :: "byte list"
  early :: "(nat \<times> byte list) list"
  complete :: bool

record ProdStore =
  entries :: "ProdIndex \<rightharpoonup> ProductEntry"
  fifo :: "ProdIndex list"

definition emptyStore :: ProdStore where
  "emptyStore = \<lparr>entries = Map.empty, fifo = []\<rparr>"

definition chunkCount :: "ProdInfo \<Rightarrow> nat" where
  "chunkCount info = ceilDiv (unat (infoSize info)) (unat (infoChunkSize info))"

definition isWhole :: "ProductEntry \<Rightarrow> bool" where
  "isWhole e =
     (case entryInfo e of None \<Rightarrow> False | Some info \<Rightarrow> {..<chunkCount info} \<subseteq> present e)"

definition writeAt :: "byte list \<Rightarrow> nat \<Rightarrow> byte list \<Rightarrow> byte list" where
  "writeAt buf offset bytes =
     take (length buf) (take offset buf @ bytes @ drop (offset + length bytes) buf)"

definition copyEarly :: "ProdInfo \<Rightarrow> (nat \<times> byte list) list \<Rightarrow> byte list \<Rightarrow> byte list" where
  "copyEarly info chunks buf =
     fold (\<lambda>(i, bytes) b. writeAt b (i * unat (infoChunkSize info)) bytes) chunks buf"

definition statusOf :: "AddStatus \<Rightarrow> ProductEntry \<Rightarrow> AddStatus" where
  "statusOf status e = (if complete e then setComplete status else status)"

text \<open>
  \<^verbatim>\<open>add(prodInfo, prod)\<close>: creates the entry, with its buffer, if there is none; merges
  the information into an entry that has only chunks; and reports a duplicate, with no
  change, if the entry has its information already. \<^verbatim>\<open>prod\<close> is set iff the status says
  that the product is complete (ProdStore.h).
\<close>

definition addInfo ::
  "ProdInfo \<Rightarrow> ProdStore \<Rightarrow> (AddStatus \<times> ProductEntry option) \<times> ProdStore" where
  "addInfo info store =
     (let prodOut = (\<lambda>e. if complete e then Some e else None) in
      case entries store (infoIndex info) of
        None \<Rightarrow>
          (let e0 = \<lparr>entryInfo = Some info, present = {},
                     buffer = replicate (unat (infoSize info)) 0, early = [], complete = False\<rparr>;
               e = e0\<lparr>complete := isWhole e0\<rparr>
           in ((statusOf (setNew AddStatus_init) e, prodOut e),
               store\<lparr>entries := (entries store)(infoIndex info \<mapsto> e),
                      fifo := fifo store @ [infoIndex info]\<rparr>))
      | Some old \<Rightarrow>
          (case entryInfo old of
             Some known \<Rightarrow> ((statusOf (setDuplicate AddStatus_init) old, prodOut old), store)
           | None \<Rightarrow>
               (let e1 = old\<lparr>entryInfo := Some info,
                              buffer := copyEarly info (early old)
                                          (replicate (unat (infoSize info)) 0),
                              early := []\<rparr>;
                    e = e1\<lparr>complete := isWhole e1\<rparr>
                in ((statusOf AddStatus_init e, prodOut e),
                    store\<lparr>entries := (entries store)(infoIndex info \<mapsto> e)\<rparr>))))"

text \<open>
  \<^verbatim>\<open>add(chunk, prod)\<close>: creates the entry if there is none; discards a chunk that is
  present already, with no change, and reports a duplicate; otherwise drains the chunk,
  into the buffer at the chunk's offset or, before the ProdInfo has arrived, into the
  early chunks, and marks it present. A chunk whose index is not below the chunk count
  of the entry's ProdInfo is discarded with no change and no exception; the spec names no
  flag for it, and none is set. The chunk is left empty in every case, and \<^verbatim>\<open>prod\<close> is
  set to the entry.
\<close>

definition addChunk ::
  "LatentChunk \<Rightarrow> ProdStore \<Rightarrow> ((AddStatus \<times> ProductEntry option) \<times> ProdStore) \<times> LatentChunk" where
  "addChunk chunk store =
     (let p = prodIndex (latentInfo chunk);
          i = unat (chunkIndex (latentInfo chunk))
      in case entries store p of
           None \<Rightarrow>
             (let (bytes, chunk') = drainData chunk;
                  e = \<lparr>entryInfo = None, present = {i}, buffer = [], early = [(i, bytes)],
                       complete = False\<rparr>
              in (((statusOf (setNew AddStatus_init) e, Some e),
                   store\<lparr>entries := (entries store)(p \<mapsto> e), fifo := fifo store @ [p]\<rparr>),
                  chunk'))
         | Some old \<Rightarrow>
             if i \<in> present old then
               (((statusOf (setDuplicate AddStatus_init) old, Some old), store), discard chunk)
             else
               (case entryInfo old of
                  None \<Rightarrow>
                    (let (bytes, chunk') = drainData chunk;
                         e = old\<lparr>present := insert i (present old),
                                 early := early old @ [(i, bytes)]\<rparr>
                     in (((statusOf AddStatus_init e, Some e),
                          store\<lparr>entries := (entries store)(p \<mapsto> e)\<rparr>), chunk'))
                | Some info \<Rightarrow>
                    if chunkCount info \<le> i then
                      (((statusOf AddStatus_init old, Some old), store), discard chunk)
                    else
                      (let (bytes, chunk') = drainData chunk;
                           e1 = old\<lparr>present := insert i (present old),
                                    buffer := writeAt (buffer old)
                                                (i * unat (infoChunkSize info)) bytes\<rparr>;
                           e = e1\<lparr>complete := isWhole e1\<rparr>
                       in (((statusOf AddStatus_init e, Some e),
                            store\<lparr>entries := (entries store)(p \<mapsto> e)\<rparr>), chunk'))))"

text \<open>A sequence of additions, with the status and the out-parameter of each.\<close>

datatype storeOp = AddInfo ProdInfo | AddChunk LatentChunk

definition applyOp :: "storeOp \<Rightarrow> ProdStore \<Rightarrow> (AddStatus \<times> ProductEntry option) \<times> ProdStore" where
  "applyOp op store =
     (case op of AddInfo info \<Rightarrow> addInfo info store | AddChunk chunk \<Rightarrow> fst (addChunk chunk store))"

fun runOps ::
  "ProdStore \<Rightarrow> storeOp list \<Rightarrow> (AddStatus \<times> ProductEntry option) list \<times> ProdStore" where
  "runOps store [] = ([], store)"
| "runOps store (op # ops) =
     (let (r, store') = applyOp op store;
          (rs, store'') = runOps store' ops
      in (r # rs, store''))"

text \<open>An addition for the product of \<open>info\<close>: its ProdInfo, or one of its chunks.\<close>

definition opFor :: "ProdInfo \<Rightarrow> storeOp \<Rightarrow> bool" where
  "opFor info op =
     (case op of
        AddInfo x \<Rightarrow> x = info
      | AddChunk chunk \<Rightarrow>
          prodIndex (latentInfo chunk) = infoIndex info \<and>
          unat (chunkIndex (latentInfo chunk)) < chunkCount info)"

definition isChunkOp :: "ProdInfo \<Rightarrow> nat \<Rightarrow> storeOp \<Rightarrow> bool" where
  "isChunkOp info i op =
     (case op of
        AddInfo x \<Rightarrow> False
      | AddChunk chunk \<Rightarrow>
          prodIndex (latentInfo chunk) = infoIndex info \<and>
          unat (chunkIndex (latentInfo chunk)) = i)"

text \<open>A chunk is present in the store when its entry exists and has its index.\<close>

definition chunkPresent :: "ProdStore \<Rightarrow> LatentChunk \<Rightarrow> bool" where
  "chunkPresent store chunk =
     (case entries store (prodIndex (latentInfo chunk)) of
        None \<Rightarrow> False
      | Some e \<Rightarrow> unat (chunkIndex (latentInfo chunk)) \<in> present e)"

text \<open>
  What the store holds of the product with index \<open>p\<close>: the chunk indexes present, whether
  the ProdInfo is known, and whether the entry is complete. An entry agrees with \<open>info\<close>
  when the ProdInfo it has, if any, is \<open>info\<close> and its completion flag says whether it is
  whole.
\<close>

definition presentOf :: "ProdStore \<Rightarrow> ProdIndex \<Rightarrow> nat set" where
  "presentOf store p = (case entries store p of None \<Rightarrow> {} | Some e \<Rightarrow> present e)"

definition infoKnown :: "ProdStore \<Rightarrow> ProdIndex \<Rightarrow> bool" where
  "infoKnown store p = (case entries store p of None \<Rightarrow> False | Some e \<Rightarrow> entryInfo e \<noteq> None)"

definition isDone :: "ProdStore \<Rightarrow> ProdIndex \<Rightarrow> bool" where
  "isDone store p = (case entries store p of None \<Rightarrow> False | Some e \<Rightarrow> complete e)"

definition agrees :: "ProdInfo \<Rightarrow> ProdStore \<Rightarrow> bool" where
  "agrees info store =
     (case entries store (infoIndex info) of
        None \<Rightarrow> True
      | Some e \<Rightarrow>
          (entryInfo e = None \<or> entryInfo e = Some info) \<and> complete e = isWhole e)"

definition opChunks :: "storeOp \<Rightarrow> nat set" where
  "opChunks op =
     (case op of AddInfo x \<Rightarrow> {} | AddChunk chunk \<Rightarrow> {unat (chunkIndex (latentInfo chunk))})"

definition opIsInfo :: "storeOp \<Rightarrow> bool" where
  "opIsInfo op = (case op of AddInfo x \<Rightarrow> True | AddChunk chunk \<Rightarrow> False)"

text \<open>The effect of an addition on the entry of its product, as seen from outside.\<close>

definition stepOk ::
  "ProdInfo \<Rightarrow> ProdStore \<Rightarrow> bool \<Rightarrow> nat set \<Rightarrow> (AddStatus \<times> ProductEntry option) \<times> ProdStore \<Rightarrow> bool"
  where
  "stepOk info store isInfo chunks r =
     (let p = infoIndex info; s = fst (fst r); out = snd (fst r); store' = snd r in
      agrees info store' \<and>
      infoKnown store' p = (infoKnown store p \<or> isInfo) \<and>
      presentOf store' p = chunks \<union> presentOf store p \<and>
      isComplete s = isDone store' p \<and>
      (isDone store p \<longrightarrow> store' = store \<and> isDuplicate s) \<and>
      (\<not> isDone store p \<and> isDone store' p \<longrightarrow>
         \<not> isDuplicate s \<and> out \<noteq> None \<and> out = entries store' p))"

text \<open>
  The run of a list of additions, by position: the store after the first \<open>k\<close>
  additions, and the status and the out-parameter of addition \<open>j\<close>.
\<close>

definition storeAfter :: "ProdStore \<Rightarrow> storeOp list \<Rightarrow> nat \<Rightarrow> ProdStore" where
  "storeAfter store ops k = snd (runOps store (take k ops))"

definition statusAt :: "ProdStore \<Rightarrow> storeOp list \<Rightarrow> nat \<Rightarrow> AddStatus" where
  "statusAt store ops j = fst (fst (runOps store ops) ! j)"

definition outAt :: "ProdStore \<Rightarrow> storeOp list \<Rightarrow> nat \<Rightarrow> ProductEntry option" where
  "outAt store ops j = snd (fst (runOps store ops) ! j)"

text \<open>
  The product of \<open>info\<close> completes at addition \<open>k0\<close> of the run: its entry is complete
  after \<open>k\<close> additions exactly when \<open>k0 < k\<close>; an addition reports isComplete exactly from
  \<open>k0\<close> on; addition \<open>k0\<close> is no duplicate and sets the out-parameter to the entry; and
  every later addition reports a duplicate and leaves the store as it was.
\<close>

definition completesAt :: "ProdInfo \<Rightarrow> ProdStore \<Rightarrow> storeOp list \<Rightarrow> nat \<Rightarrow> bool" where
  "completesAt info store ops k0 =
     ((\<forall>k \<le> length ops. isDone (storeAfter store ops k) (infoIndex info) \<longleftrightarrow> k0 < k) \<and>
      (\<forall>j < length ops. isComplete (statusAt store ops j) \<longleftrightarrow> k0 \<le> j) \<and>
      \<not> isDuplicate (statusAt store ops k0) \<and>
      outAt store ops k0 \<noteq> None \<and>
      outAt store ops k0 = entries (storeAfter store ops (Suc k0)) (infoIndex info) \<and>
      (\<forall>j. k0 < j \<and> j < length ops \<longrightarrow>
         isDuplicate (statusAt store ops j) \<and>
         storeAfter store ops (Suc j) = storeAfter store ops j))"

text \<open>The store and the status that \<^verbatim>\<open>add(chunk, prod)\<close> returns.\<close>

definition addChunk_store :: "LatentChunk \<Rightarrow> ProdStore \<Rightarrow> ProdStore" where
  "addChunk_store chunk store = snd (fst (addChunk chunk store))"

definition addChunk_status :: "LatentChunk \<Rightarrow> ProdStore \<Rightarrow> AddStatus" where
  "addChunk_status chunk store = fst (fst (fst (addChunk chunk store)))"

text \<open>A chunk is out of range when its entry has a ProdInfo whose chunk count its index reaches.\<close>

definition outOfRange :: "ProdStore \<Rightarrow> LatentChunk \<Rightarrow> bool" where
  "outOfRange store chunk =
     (case entries store (prodIndex (latentInfo chunk)) of
        None \<Rightarrow> False
      | Some e \<Rightarrow>
          (case entryInfo e of
             None \<Rightarrow> False
           | Some info \<Rightarrow> chunkCount info \<le> unat (chunkIndex (latentInfo chunk))))"

section \<open>Chunk layout\<close>

lemma unat_ucast16: "unat (ucast (c::16 word) :: 32 word) = unat c"
  by (simp add: unsigned_ucast_eq take_bit_nat_eq_self_iff
      order_less_le_trans[OF unsigned_less])

lemma unat16_bound: "unat (c::16 word) < 65536"
  using unsigned_less[of c, where 'a=nat] by simp

lemma unat32_bound: "unat (c::32 word) < 4294967296"
  using unsigned_less[of c, where 'a=nat] by simp

lemma unat_numChunks:
  assumes "c \<noteq> 0"
  shows "unat (numChunks c s) = ((unat s + unat c - 1) mod 2 ^ 32) div unat c"
proof -
  have c1: "1 \<le> unat c" using assms by (simp add: unat_gt_0 Suc_le_eq)
  have le: "(1::32 word) \<le> ucast c"
    using c1 by (simp add: word_le_nat_alt unat_ucast16)
  have m1: "unat (ucast c - 1 :: 32 word) = unat c - 1"
    using unat_sub[OF le] by (simp add: unat_ucast16)
  have "s + ucast c - 1 = s + (ucast c - 1)" by simp
  then have "unat (s + ucast c - 1) = (unat s + (unat c - 1)) mod 2 ^ 32"
    by (simp only: unat_word_ariths(1) m1) simp
  also have "unat s + (unat c - 1) = unat s + unat c - 1" using c1 by simp
  finally show ?thesis
    by (simp add: numChunks_def unat_div unat_ucast16)
qed

lemma numChunks_le:
  assumes "c \<noteq> 0"
  shows "unat (numChunks c s) \<le> ceilDiv (unat s) (unat c)"
  unfolding unat_numChunks[OF assms] ceilDiv_def
  by (rule div_le_mono) simp

lemma numChunks_exact:
  assumes "c \<noteq> 0" and "unat s + unat c - 1 < 2 ^ 32"
  shows "unat (numChunks c s) = ceilDiv (unat s) (unat c)"
  unfolding unat_numChunks[OF assms(1)] ceilDiv_def using assms(2) by simp

lemma ceilDiv_gt: "0 < c \<Longrightarrow> i < ceilDiv s c \<longleftrightarrow> i * c < s"
proof -
  assume c: "0 < c"
  have "i < (s + c - 1) div c \<longleftrightarrow> (i + 1) * c \<le> s + c - 1"
    using c by (simp add: less_eq_div_iff_mult_less_eq Suc_le_eq[symmetric] del: Suc_le_eq)
  also have "\<dots> \<longleftrightarrow> i * c < s" using c by (cases c) auto
  finally show ?thesis by (simp add: ceilDiv_def)
qed

lemma getOffset_exact:
  fixes s :: "32 word"
  assumes "unat i * unat c < unat s"
  shows "unat (getOffset c i) = unat i * unat c"
proof -
  have "unat i * unat (ucast c :: 32 word) < 2 ^ LENGTH(32)"
    using assms unat32_bound[of s] by (simp add: unat_ucast16)
  then show ?thesis
    unfolding getOffset_def by (simp add: unat_mult_lem[THEN iffD1] unat_ucast16)
qed

lemma getSize_value:
  assumes "unat i * unat c < unat s"
  shows "\<exists>r. getSize c s i = Inr r \<and> unat r = min (unat c) (unat s - unat i * unat c)"
proof -
  let ?off = "getOffset c i"
  have off: "unat ?off = unat i * unat c" by (rule getOffset_exact[OF assms])
  have lt: "?off < s" using assms off by (simp add: word_less_nat_alt)
  have rem: "unat (s - ?off) = unat s - unat i * unat c"
    using lt off by (simp add: unat_sub)
  show ?thesis
  proof (cases "ucast c < s - ?off")
    case True
    then have "unat c < unat s - unat i * unat c"
      by (simp add: word_less_nat_alt rem unat_ucast16)
    with True lt show ?thesis
      by (simp add: getSize_def Let_def not_le[symmetric] del: not_le)
  next
    case False
    then have le: "unat s - unat i * unat c \<le> unat c"
      by (simp add: word_less_nat_alt rem unat_ucast16)
    have "unat (ucast (s - ?off) :: 16 word) = unat (s - ?off)"
      using le rem unat16_bound[of c]
      by (simp add: unsigned_ucast_eq take_bit_nat_eq_self_iff)
    with False lt le rem show ?thesis
      by (simp add: getSize_def Let_def not_le[symmetric] del: not_le)
  qed
qed

lemma sum_min_chunks:
  fixes c s :: nat
  shows "(\<Sum>i<k. min c (s - i * c)) = min s (k * c)"
proof (induction k)
  case 0
  show ?case by simp
next
  case (Suc k)
  have step: "min s (k * c) + min c (s - k * c) = min s (Suc k * c)"
    by (cases "k * c \<le> s") (auto simp: min_def)
  have "(\<Sum>i<Suc k. min c (s - i * c)) = (\<Sum>i<k. min c (s - i * c)) + min c (s - k * c)"
    by simp
  also have "\<dots> = min s (k * c) + min c (s - k * c)" by (simp only: Suc)
  finally show ?case by (simp only: step)
qed

lemma ceilDiv_mult_ge: "0 < c \<Longrightarrow> s \<le> ceilDiv s c * c"
  using ceilDiv_gt[of c "ceilDiv s c" s] by simp

lemma chunkBytes_value:
  assumes "i < ceilDiv (unat s) (unat c)" and "c \<noteq> 0"
  shows "chunkBytes c s i = min (unat c) (unat s - i * unat c)"
proof -
  have c: "0 < unat c" using assms(2) by (simp add: unat_gt_0)
  have lt: "i * unat c < unat s" using assms(1) ceilDiv_gt[OF c] by simp
  have "i * 1 \<le> i * unat c" using c by (intro mult_le_mono2) simp
  then have "i < 4294967296" using lt unat32_bound[of s] by linarith
  then have "i < 2 ^ 32" by simp
  then have ui: "unat (of_nat i :: 32 word) = i"
    by (simp add: unat_of_nat)
  from getSize_value[of "of_nat i" c s] lt ui
  obtain r where "getSize c s (of_nat i) = Inr r" "unat r = min (unat c) (unat s - i * unat c)"
    by auto
  then show ?thesis by (simp add: chunkBytes_def)
qed

lemma chunk_sizes_sum:
  assumes "c \<noteq> 0"
  shows "(\<Sum>i<ceilDiv (unat s) (unat c). chunkBytes c s i) = unat s"
proof -
  have c: "0 < unat c" using assms by (simp add: unat_gt_0)
  have "(\<Sum>i<ceilDiv (unat s) (unat c). chunkBytes c s i) =
        (\<Sum>i<ceilDiv (unat s) (unat c). min (unat c) (unat s - i * unat c))"
    by (rule sum.cong) (simp_all add: chunkBytes_value[OF _ assms])
  also have "\<dots> = min (unat s) (ceilDiv (unat s) (unat c) * unat c)"
    by (rule sum_min_chunks)
  also have "\<dots> = unat s" using ceilDiv_mult_ge[OF c, of "unat s"] by simp
  finally show ?thesis .
qed

section \<open>Claims about the chunk layout\<close>

text \<open>
  Claim C4. The chunk count of a product of size \<open>s\<close> is \<open>\<lceil>s / c\<rceil>\<close>. The constructor
  computes it as \<^verbatim>\<open>(prodSize+getCanonSize()-1)/getCanonSize()\<close> in 32-bit arithmetic,
  and the sum wraps for a product size above \<open>2 ^ 32 - c\<close>: for the largest product
  size and the initial canonical size the computed count is 0 where \<open>\<lceil>s / c\<rceil>\<close> is
  131105, so the constructor refuses chunk 1, whose size \<^verbatim>\<open>getSize\<close> gives as 32760.
\<close>

theorem numChunks_wraps:
  "numChunks initCanonSize 0xFFFFFFFF = 0 \<and>
   ceilDiv (unat (0xFFFFFFFF :: ProdSize)) (unat initCanonSize) = 131105 \<and>
   ChunkInfo_ctor initCanonSize 0 0xFFFFFFFF 1 = Inl (InvalidArgument ChunkIndexTooBig) \<and>
   getSize initCanonSize 0xFFFFFFFF 1 = Inr 32760"
  by (simp add: numChunks_def initCanonSize_def ceilDiv_def ChunkInfo_ctor_def getSize_def
      getOffset_def)

text \<open>
  Claim C5, as stated, at product size 0 and chunk index 0: the chunk count is 0, the
  index is not below it, and the constructor returns an object.
\<close>

theorem ChunkInfo_ctor_zero_index_counterexample:
  "ceilDiv (unat (0 :: ProdSize)) (unat initCanonSize) \<le> unat (0 :: ChunkIndex) \<and>
   ChunkInfo_ctor initCanonSize 0 0 0 =
     Inr \<lparr>prodIndex = 0, prodSize = 0, chunkIndex = 0, hashCode = 0\<rparr>"
  by (simp add: ceilDiv_def initCanonSize_def ChunkInfo_ctor_def)

text \<open>
  Claim C5, amended. For a non-zero canonical size: the constructor throws
  InvalidArgument for every non-zero chunk index that is not below \<open>\<lceil>prodSize / c\<rceil>\<close>;
  it accepts chunk index 0 for every product size; and every object it returns has
  chunk index 0 or a chunk index below \<open>\<lceil>prodSize / c\<rceil>\<close>, and carries the arguments.
  The same holds of every object that \<^verbatim>\<open>deserialize\<close> returns, which it builds with
  this constructor.
\<close>

theorem ChunkInfo_ctor_index_check:
  assumes "c \<noteq> 0"
  shows "(i \<noteq> 0 \<and> ceilDiv (unat s) (unat c) \<le> unat i \<longrightarrow>
            ChunkInfo_ctor c p s i = Inl (InvalidArgument ChunkIndexTooBig)) \<and>
         ChunkInfo_ctor c p s 0 =
            Inr \<lparr>prodIndex = p, prodSize = s, chunkIndex = 0, hashCode = 0\<rparr> \<and>
         (\<forall>x. ChunkInfo_ctor c p s i = Inr x \<longrightarrow>
            (chunkIndex x = 0 \<or> unat (chunkIndex x) < ceilDiv (unat s) (unat c)) \<and>
            prodIndex x = p \<and> prodSize x = s \<and> chunkIndex x = i) \<and>
         (\<forall>x rest. ChunkInfo_deserialize c bs v = Inr (x, rest) \<longrightarrow>
            chunkIndex x = 0 \<or>
            unat (chunkIndex x) < ceilDiv (unat (prodSize x)) (unat c))"
proof (intro conjI allI impI)
  assume a: "i \<noteq> 0 \<and> ceilDiv (unat s) (unat c) \<le> unat i"
  then have "unat (numChunks c s) \<le> unat i"
    using numChunks_le[OF assms, of s] by simp
  then have "numChunks c s \<le> i" by (simp add: word_le_nat_alt)
  with a show "ChunkInfo_ctor c p s i = Inl (InvalidArgument ChunkIndexTooBig)"
    by (simp add: ChunkInfo_ctor_def)
next
  show "ChunkInfo_ctor c p s 0 =
      Inr \<lparr>prodIndex = p, prodSize = s, chunkIndex = 0, hashCode = 0\<rparr>"
    by (simp add: ChunkInfo_ctor_def)
next
  fix x assume r: "ChunkInfo_ctor c p s i = Inr x"
  then have x: "x = \<lparr>prodIndex = p, prodSize = s, chunkIndex = i, hashCode = 0\<rparr>"
    and ok: "i = 0 \<or> i < numChunks c s"
    by (auto simp: ChunkInfo_ctor_def split: if_splits)
  from ok have "i = 0 \<or> unat i < ceilDiv (unat s) (unat c)"
    using numChunks_le[OF assms, of s] by (auto simp: word_less_nat_alt)
  with x show "chunkIndex x = 0 \<or> unat (chunkIndex x) < ceilDiv (unat s) (unat c)"
    by simp
  from x show "prodIndex x = p" "prodSize x = s" "chunkIndex x = i" by simp_all
next
  fix x rest assume h: "ChunkInfo_deserialize c bs v = Inr (x, rest)"
  show "chunkIndex x = 0 \<or> unat (chunkIndex x) < ceilDiv (unat (prodSize x)) (unat c)"
  proof (cases "ChunkInfo_decode bs v")
    case (Inl e)
    with h show ?thesis by (simp add: ChunkInfo_deserialize_def)
  next
    case (Inr r)
    obtain d rest' where r: "r = (d, rest')" by (cases r)
    with h Inr have "ChunkInfo_ctor c (prodIndex d) (prodSize d) (chunkIndex d) = Inr x"
      by (simp add: ChunkInfo_deserialize_def split: sum.splits)
    then have x: "prodSize x = prodSize d" "chunkIndex x = chunkIndex d"
      and ok: "chunkIndex d = 0 \<or> chunkIndex d < numChunks c (prodSize d)"
      by (auto simp: ChunkInfo_ctor_def split: if_splits)
    from ok have
      "chunkIndex d = 0 \<or> unat (chunkIndex d) < ceilDiv (unat (prodSize d)) (unat c)"
      using numChunks_le[OF assms, of "prodSize d"] by (auto simp: word_less_nat_alt)
    with x show ?thesis by simp
  qed
qed

theorem ChunkInfo_ctor_index_check_witness:
  "ChunkInfo_ctor initCanonSize 7 100000 4 = Inl (InvalidArgument ChunkIndexTooBig) \<and>
   ChunkInfo_ctor initCanonSize 7 100000 0 =
     Inr \<lparr>prodIndex = 7, prodSize = 100000, chunkIndex = 0, hashCode = 0\<rparr> \<and>
   ChunkInfo_ctor initCanonSize 7 100000 3 =
     Inr \<lparr>prodIndex = 7, prodSize = 100000, chunkIndex = 3, hashCode = 0\<rparr> \<and>
   unat (3 :: ChunkIndex) < ceilDiv (unat (100000 :: ProdSize)) (unat initCanonSize)"
proof -
  have c: "initCanonSize \<noteq> 0" by (simp add: initCanonSize_def)
  have big: "(4 :: ChunkIndex) \<noteq> 0 \<and>
      ceilDiv (unat (100000 :: ProdSize)) (unat initCanonSize) \<le> unat (4 :: ChunkIndex)"
    by (simp add: ceilDiv_def initCanonSize_def)
  have r3: "ChunkInfo_ctor initCanonSize 7 100000 3 =
     Inr \<lparr>prodIndex = 7, prodSize = 100000, chunkIndex = 3, hashCode = 0\<rparr>"
    by (simp add: ChunkInfo_ctor_def numChunks_def initCanonSize_def)
  from ChunkInfo_ctor_index_check[OF c, of 4 100000 7] big
    ChunkInfo_ctor_index_check[OF c, of 3 100000 7] r3
  show ?thesis by simp
qed

text \<open>
  The guard of \<^verbatim>\<open>getSize\<close> on the offset that it computes: it throws InvalidArgument
  whenever that offset is not below the product size, so for every call with product
  size 0; and when it returns, the computed offset is below the product size, the
  subtraction \<^verbatim>\<open>prodSize - offset\<close> does not wrap, and the result is the smaller of
  the canonical size and the remaining bytes, which is positive for a non-zero
  canonical size.
\<close>

lemma getSize_offset_guard:
  "(s \<le> getOffset c i \<longrightarrow> getSize c s i = Inl (InvalidArgument ChunkOffsetTooBig)) \<and>
   getSize c 0 i = Inl (InvalidArgument ChunkOffsetTooBig) \<and>
   (\<forall>r. getSize c s i = Inr r \<longrightarrow>
      getOffset c i < s \<and>
      unat (s - getOffset c i) = unat s - unat (getOffset c i) \<and>
      unat r = min (unat c) (unat s - unat (getOffset c i)) \<and>
      (c \<noteq> 0 \<longrightarrow> 0 < r))"
proof (intro conjI allI impI)
  assume "s \<le> getOffset c i"
  then show "getSize c s i = Inl (InvalidArgument ChunkOffsetTooBig)"
    by (simp add: getSize_def)
next
  show "getSize c 0 i = Inl (InvalidArgument ChunkOffsetTooBig)"
    by (simp add: getSize_def)
next
  fix r assume ret: "getSize c s i = Inr r"
  let ?off = "getOffset c i"
  from ret have lt: "?off < s"
    by (simp add: getSize_def Let_def not_le[symmetric] split: if_splits del: not_le)
  then show "?off < s" .
  from lt have rem: "unat (s - ?off) = unat s - unat ?off"
    by (simp add: unat_sub)
  then show "unat (s - ?off) = unat s - unat ?off" .
  from lt have pos: "0 < unat s - unat ?off"
    by (simp add: word_less_nat_alt)
  from ret lt have r: "r = (if ucast c < s - ?off then c else ucast (s - ?off))"
    by (simp add: getSize_def Let_def not_le[symmetric] del: not_le)
  show val: "unat r = min (unat c) (unat s - unat ?off)"
  proof (cases "ucast c < s - ?off")
    case True
    then have "unat c < unat s - unat ?off"
      by (simp add: word_less_nat_alt rem unat_ucast16)
    with True r show ?thesis by simp
  next
    case False
    then have le: "unat s - unat ?off \<le> unat c"
      by (simp add: word_less_nat_alt rem unat_ucast16)
    have "unat (ucast (s - ?off) :: 16 word) = unat (s - ?off)"
      using le rem unat16_bound[of c]
      by (simp add: unsigned_ucast_eq take_bit_nat_eq_self_iff)
    with False r le rem show ?thesis by simp
  qed
  assume "c \<noteq> 0"
  then have "0 < unat c" by (simp add: unat_gt_0)
  with pos val have "0 < unat r" by simp
  then show "0 < r" by (simp add: word_less_nat_alt)
qed


section \<open>The peer's receive loop and handshake\<close>

lemma stream_ids:
  "VERSION_STREAM_ID = 0" "PROD_NOTICE_STREAM_ID = 1" "CHUNK_NOTICE_STREAM_ID = 2"
  "PROD_REQ_STREAM_ID = 3" "CHUNK_REQ_STREAM_ID = 4" "CHUNK_STREAM_ID = 5"
  "NUM_STREAM_IDS = 6"
  by (simp_all add: VERSION_STREAM_ID_def PROD_NOTICE_STREAM_ID_def CHUNK_NOTICE_STREAM_ID_def
      PROD_REQ_STREAM_ID_def CHUNK_REQ_STREAM_ID_def CHUNK_STREAM_ID_def NUM_STREAM_IDS_def)

lemma runReceiver_zero_size:
  "SctpSock_getSize q = 0 \<Longrightarrow> runReceiver rcvr c v a q = Inr a"
  by (cases q) simp_all

lemma runReceiver_returns:
  "runReceiver rcvr c v a q = Inr a' \<Longrightarrow>
     \<exists>pre post. q = pre @ post \<and> SctpSock_getSize post = 0 \<and>
       (\<forall>k < length pre. SctpSock_getSize (drop k q) \<noteq> 0)"
proof (induction q arbitrary: a)
  case Nil
  then show ?case by (simp add: SctpSock_getSize_def)
next
  case (Cons m ms)
  show ?case
  proof (cases "SctpSock_getSize (m # ms) = 0")
    case True
    then have "m # ms = [] @ (m # ms) \<and> SctpSock_getSize (m # ms) = 0 \<and>
        (\<forall>k < length ([]::Msg list). SctpSock_getSize (drop k (m # ms)) \<noteq> 0)"
      by simp
    then show ?thesis by blast
  next
    case False
    with Cons.prems obtain a1 where "runReceiver rcvr c v a1 ms = Inr a'"
      by (auto split: sum.splits)
    from Cons.IH[OF this] obtain pre post where
      pp: "ms = pre @ post" "SctpSock_getSize post = 0"
        "\<forall>k < length pre. SctpSock_getSize (drop k ms) \<noteq> 0"
      by blast
    have "\<forall>k < length (m # pre). SctpSock_getSize (drop k (m # ms)) \<noteq> 0"
    proof (intro allI impI)
      fix k assume "k < length (m # pre)"
      then show "SctpSock_getSize (drop k (m # ms)) \<noteq> 0"
        using False pp(3) by (cases k) simp_all
    qed
    with pp have "m # ms = (m # pre) @ post \<and> SctpSock_getSize post = 0 \<and>
        (\<forall>k < length (m # pre). SctpSock_getSize (drop k (m # ms)) \<noteq> 0)"
      by simp
    then show ?thesis by blast
  qed
qed

text \<open>
  Claim C8. The peer's transport has 6 streams. The receive loop returns normally when
  the size of the current message is 0, and a run that returns normally has consumed a
  prefix of messages of non-zero size and then met size 0. A message of non-zero size
  is dispatched on its stream number: 1 to \<^verbatim>\<open>recvNotice(ProdInfo)\<close>, 2 to
  \<^verbatim>\<open>recvNotice(ChunkInfo)\<close>, 3 to \<^verbatim>\<open>recvRequest(ProdIndex)\<close>, 4 to
  \<^verbatim>\<open>recvRequest(ChunkInfo)\<close>, 5 to \<^verbatim>\<open>recvData(LatentChunk)\<close>; on any other stream
  number the message is discarded, no upcall is made, nothing is thrown, and the loop
  goes on with the next message.
\<close>

theorem runReceiver_dispatch:
  "getNumStreams = 6 \<and>
   (SctpSock_getSize q = 0 \<longrightarrow> runReceiver rcvr c v a q = Inr a) \<and>
   (\<forall>a'. runReceiver rcvr c v a q = Inr a' \<longrightarrow>
      (\<exists>pre post. q = pre @ post \<and> SctpSock_getSize post = 0 \<and>
         (\<forall>k < length pre. SctpSock_getSize (drop k q) \<noteq> 0))) \<and>
   (SctpSock_getSize (m # ms) \<noteq> 0 \<longrightarrow>
      runReceiver rcvr c v a (m # ms) =
        (case dispatch rcvr c v a m of
           Inl e \<Rightarrow> Inl e | Inr a1 \<Rightarrow> runReceiver rcvr c v a1 ms) \<and>
      (streamId m = 1 \<longrightarrow> dispatch rcvr c v a m =
        (case Channel_recv ProdInfo_deserialize m v of
           Inl e \<Rightarrow> Inl e | Inr info \<Rightarrow> recvNoticeProd rcvr info a)) \<and>
      (streamId m = 2 \<longrightarrow> dispatch rcvr c v a m =
        (case Channel_recv (ChunkInfo_deserialize c) m v of
           Inl e \<Rightarrow> Inl e | Inr info \<Rightarrow> recvNoticeChunk rcvr info a)) \<and>
      (streamId m = 3 \<longrightarrow> dispatch rcvr c v a m =
        (case Channel_recv ProdIndex_deserialize m v of
           Inl e \<Rightarrow> Inl e | Inr index \<Rightarrow> recvRequestProd rcvr index a)) \<and>
      (streamId m = 4 \<longrightarrow> dispatch rcvr c v a m =
        (case Channel_recv (ChunkInfo_deserialize c) m v of
           Inl e \<Rightarrow> Inl e | Inr info \<Rightarrow> recvRequestChunk rcvr info a)) \<and>
      (streamId m = 5 \<longrightarrow> dispatch rcvr c v a m =
        (case Channel_recv (LatentChunk_deserialize c) m v of
           Inl e \<Rightarrow> Inl e
         | Inr chunk \<Rightarrow>
             (case recvData rcvr chunk a of
                Inl e \<Rightarrow> Inl e
              | Inr (a1, chunk') \<Rightarrow>
                  if hasData chunk' then Inl (LogicError ChunkStillHasData) else Inr a1))) \<and>
      (streamId m = 0 \<or> 5 < streamId m \<longrightarrow>
         dispatch rcvr c v a m = Inr a \<and>
         runReceiver rcvr c v a (m # ms) = runReceiver rcvr c v a ms))"
proof (intro conjI impI allI)
  show "getNumStreams = 6" by (simp add: getNumStreams_def stream_ids)
  show "runReceiver rcvr c v a q = Inr a" if "SctpSock_getSize q = 0"
    using that by (rule runReceiver_zero_size)
  show "\<exists>pre post. q = pre @ post \<and> SctpSock_getSize post = 0 \<and>
         (\<forall>k < length pre. SctpSock_getSize (drop k q) \<noteq> 0)"
    if "runReceiver rcvr c v a q = Inr a'" for a'
    using that by (rule runReceiver_returns)
qed (auto simp: dispatch_def stream_ids)

theorem runReceiver_dispatch_witness:
  "runReceiver PerfMsgRcvr initCanonSize 0 (0::nat)
     [\<lparr>streamId = 3, payload = [0, 0, 0, 2]\<rparr>,
      \<lparr>streamId = 9, payload = [1]\<rparr>,
      \<lparr>streamId = 5, payload = [0, 0, 0, 7, 0, 0, 0, 3, 0, 0, 0, 0, 1, 2, 3]\<rparr>] = Inr 0 \<and>
   dispatch PerfMsgRcvr initCanonSize 0 (0::nat) \<lparr>streamId = 9, payload = [1]\<rparr> = Inr 0 \<and>
   dispatch PerfMsgRcvr initCanonSize 0 (0::nat) \<lparr>streamId = 3, payload = [0, 0, 0, 2]\<rparr> =
     recvRequestProd PerfMsgRcvr 2 0"
proof -
  let ?m3 = "\<lparr>streamId = 3, payload = [0, 0, 0, 2]\<rparr>"
  let ?m9 = "\<lparr>streamId = 9, payload = [1]\<rparr>"
  let ?m5 = "\<lparr>streamId = 5, payload = [0, 0, 0, 7, 0, 0, 0, 3, 0, 0, 0, 0, 1, 2, 3]\<rparr>"
  have sz: "SctpSock_getSize [?m3, ?m9, ?m5] \<noteq> 0" "SctpSock_getSize [?m9, ?m5] \<noteq> 0"
    "SctpSock_getSize [?m5] \<noteq> 0" "SctpSock_getSize [] = 0"
    by (simp_all add: SctpSock_getSize_def)
  have d3: "Channel_recv ProdIndex_deserialize ?m3 0 = Inr 2"
    by (simp add: Channel_recv_def ProdIndex_deserialize_def)
  have d5: "Channel_recv (LatentChunk_deserialize initCanonSize) ?m5 0 =
      Inr \<lparr>latentInfo = \<lparr>prodIndex = 7, prodSize = 3, chunkIndex = 0, hashCode = 0\<rparr>,
           latentData = [1, 2, 3], hasData = True\<rparr>"
    by (simp add: Channel_recv_def LatentChunk_deserialize_def ChunkInfo_deserialize_def
        ChunkInfo_decode_def ProdIndex_deserialize_def ChunkInfo_ctor_def)
  note t3 = runReceiver_dispatch[of "[?m3, ?m9, ?m5]" PerfMsgRcvr initCanonSize 0 "0::nat" ?m3 "[?m9, ?m5]"]
  note t9 = runReceiver_dispatch[of "[]" PerfMsgRcvr initCanonSize 0 "0::nat" ?m9 "[?m5]"]
  note t5 = runReceiver_dispatch[of "[]" PerfMsgRcvr initCanonSize 0 "0::nat" ?m5 "[]"]
  from t3 t9 t5 sz d3 d5 show ?thesis
    by (simp add: PerfMsgRcvr_def discard_def)
qed

lemma Peer_ctor_sends_version:
  "outgoing (snd (Peer_ctor sock)) =
     outgoing sock @ [\<lparr>streamId = 0, payload = encode_u32 0\<rparr>]"
  by (cases "incoming sock")
     (auto simp: Peer_ctor_def getVersion_def SctpSock_send_def VersionMsg_serialize_def
        stream_ids Let_def split: sum.splits prod.splits)

lemma Peer_ctor_on_version:
  assumes "incoming sock = m # ms" and "streamId m = 0"
    and "VersionMsg_deserialize (payload m) 0 = Inr (vm, rest)"
  shows "fst (Peer_ctor sock) =
     (if msgVersion vm \<noteq> 0 then Inl (LogicError (UnsupportedVersion (msgVersion vm)))
      else Inr \<lparr>peerVersion = 0,
                peerSock = \<lparr>incoming = ms,
                  outgoing = outgoing sock @ [\<lparr>streamId = 0, payload = encode_u32 0\<rparr>]\<rparr>\<rparr>)"
  using assms
  by (simp add: Peer_ctor_def getVersion_def SctpSock_send_def VersionMsg_serialize_def
        stream_ids Let_def Channel_recv_def)

lemma VersionMsg_deserialize_error:
  "VersionMsg_deserialize bs v = Inl e \<Longrightarrow> e = ShortMessage"
  by (cases bs rule: decode_u32.cases)
     (auto simp: VersionMsg_deserialize_def split: sum.splits)

lemma Peer_ctor_unsupported:
  assumes "fst (Peer_ctor sock) = Inl (LogicError (UnsupportedVersion vers))"
  shows "\<exists>m ms vm rest. incoming sock = m # ms \<and> streamId m = 0 \<and>
           VersionMsg_deserialize (payload m) 0 = Inr (vm, rest) \<and>
           msgVersion vm = vers \<and> vers \<noteq> 0"
proof (cases "incoming sock")
  case Nil
  with assms show ?thesis
    by (simp add: Peer_ctor_def getVersion_def SctpSock_send_def Let_def)
next
  case (Cons m ms)
  show ?thesis
  proof (cases "streamId m = 0")
    case False
    with Cons assms show ?thesis
      by (simp add: Peer_ctor_def getVersion_def SctpSock_send_def Let_def stream_ids)
  next
    case True
    show ?thesis
    proof (cases "VersionMsg_deserialize (payload m) 0")
      case (Inl e)
      with Cons True assms show ?thesis
        by (auto simp: Peer_ctor_def getVersion_def SctpSock_send_def Let_def stream_ids
            Channel_recv_def dest: VersionMsg_deserialize_error)
    next
      case (Inr r)
      obtain vm rest where r: "r = (vm, rest)" by (cases r)
      from Peer_ctor_on_version[OF Cons True Inr[unfolded r]] assms
      have "msgVersion vm = vers \<and> vers \<noteq> 0" by (auto split: if_splits)
      with Cons True Inr r show ?thesis by blast
    qed
  qed
qed

lemma Peer_ctor_success:
  assumes "fst (Peer_ctor sock) = Inr p"
  shows "\<exists>m ms vm rest. incoming sock = m # ms \<and> streamId m = 0 \<and>
           VersionMsg_deserialize (payload m) 0 = Inr (vm, rest) \<and> msgVersion vm = 0"
proof (cases "incoming sock")
  case Nil
  with assms show ?thesis
    by (simp add: Peer_ctor_def getVersion_def SctpSock_send_def Let_def)
next
  case (Cons m ms)
  show ?thesis
  proof (cases "streamId m = 0")
    case False
    with Cons assms show ?thesis
      by (simp add: Peer_ctor_def getVersion_def SctpSock_send_def Let_def stream_ids)
  next
    case True
    show ?thesis
    proof (cases "VersionMsg_deserialize (payload m) 0")
      case (Inl e)
      with Cons True assms show ?thesis
        by (auto simp: Peer_ctor_def getVersion_def SctpSock_send_def Let_def stream_ids
            Channel_recv_def)
    next
      case (Inr r)
      obtain vm rest where r: "r = (vm, rest)" by (cases r)
      from Peer_ctor_on_version[OF Cons True Inr[unfolded r]] assms
      have "msgVersion vm = 0" by (auto split: if_splits)
      with Cons True Inr r show ?thesis by blast
    qed
  qed
qed

text \<open>
  Claim C7. The constructor sends its version, 0, as a VersionMsg on stream 0 before it
  reads. When the current message is a VersionMsg on stream 0, the constructor throws
  the LogicError for an unsupported version exactly when the version read differs from
  its own, and returns a peer exactly when the versions agree. It throws that error in
  no other case, and a peer, with its channels, exists only after a handshake that
  read the peer's own version.
\<close>

theorem Peer_ctor_handshake:
  "outgoing (snd (Peer_ctor sock)) =
     outgoing sock @ [\<lparr>streamId = 0, payload = VersionMsg_serialize \<lparr>msgVersion = 0\<rparr> 0\<rparr>] \<and>
   (incoming sock = m # ms \<and> streamId m = 0 \<and>
    VersionMsg_deserialize (payload m) 0 = Inr (vm, rest) \<longrightarrow>
      (fst (Peer_ctor sock) = Inl (LogicError (UnsupportedVersion (msgVersion vm)))
         \<longleftrightarrow> msgVersion vm \<noteq> 0) \<and>
      ((\<exists>p. fst (Peer_ctor sock) = Inr p) \<longleftrightarrow> msgVersion vm = 0)) \<and>
   (\<forall>vers. fst (Peer_ctor sock) = Inl (LogicError (UnsupportedVersion vers)) \<longrightarrow>
      (\<exists>m ms vm rest. incoming sock = m # ms \<and> streamId m = 0 \<and>
         VersionMsg_deserialize (payload m) 0 = Inr (vm, rest) \<and>
         msgVersion vm = vers \<and> vers \<noteq> 0)) \<and>
   (\<forall>p. fst (Peer_ctor sock) = Inr p \<longrightarrow>
      peerVersion p = 0 \<and>
      (\<exists>m ms vm rest. incoming sock = m # ms \<and> streamId m = 0 \<and>
         VersionMsg_deserialize (payload m) 0 = Inr (vm, rest) \<and> msgVersion vm = 0))"
proof (intro conjI impI allI)
  show "outgoing (snd (Peer_ctor sock)) =
     outgoing sock @ [\<lparr>streamId = 0, payload = VersionMsg_serialize \<lparr>msgVersion = 0\<rparr> 0\<rparr>]"
    by (simp add: Peer_ctor_sends_version VersionMsg_serialize_def)
next
  assume h: "incoming sock = m # ms \<and> streamId m = 0 \<and>
    VersionMsg_deserialize (payload m) 0 = Inr (vm, rest)"
  then have r: "fst (Peer_ctor sock) =
     (if msgVersion vm \<noteq> 0 then Inl (LogicError (UnsupportedVersion (msgVersion vm)))
      else Inr \<lparr>peerVersion = 0,
                peerSock = \<lparr>incoming = ms,
                  outgoing = outgoing sock @ [\<lparr>streamId = 0, payload = encode_u32 0\<rparr>]\<rparr>\<rparr>)"
    using Peer_ctor_on_version[of sock m ms vm rest] by simp
  show "(fst (Peer_ctor sock) = Inl (LogicError (UnsupportedVersion (msgVersion vm))))
         \<longleftrightarrow> msgVersion vm \<noteq> 0"
    by (simp add: r)
  show "(\<exists>p. fst (Peer_ctor sock) = Inr p) \<longleftrightarrow> msgVersion vm = 0"
    by (simp add: r)
next
  fix vers assume "fst (Peer_ctor sock) = Inl (LogicError (UnsupportedVersion vers))"
  then show "\<exists>m ms vm rest. incoming sock = m # ms \<and> streamId m = 0 \<and>
         VersionMsg_deserialize (payload m) 0 = Inr (vm, rest) \<and>
         msgVersion vm = vers \<and> vers \<noteq> 0"
    by (rule Peer_ctor_unsupported)
next
  fix p assume p: "fst (Peer_ctor sock) = Inr p"
  then show "\<exists>m ms vm rest. incoming sock = m # ms \<and> streamId m = 0 \<and>
         VersionMsg_deserialize (payload m) 0 = Inr (vm, rest) \<and> msgVersion vm = 0"
    by (rule Peer_ctor_success)
  from p show "peerVersion p = 0"
    by (auto simp: Peer_ctor_def Let_def split: prod.splits sum.splits if_splits)
qed

theorem Peer_ctor_handshake_witness:
  "fst (Peer_ctor \<lparr>incoming = [\<lparr>streamId = 0, payload = [0, 0, 0, 1]\<rparr>], outgoing = []\<rparr>) =
     Inl (LogicError (UnsupportedVersion 1)) \<and>
   fst (Peer_ctor \<lparr>incoming = [\<lparr>streamId = 0, payload = [0, 0, 0, 0]\<rparr>], outgoing = []\<rparr>) =
     Inr \<lparr>peerVersion = 0, peerSock =
           \<lparr>incoming = [], outgoing = [\<lparr>streamId = 0, payload = [0, 0, 0, 0]\<rparr>]\<rparr>\<rparr> \<and>
   outgoing (snd (Peer_ctor \<lparr>incoming = [\<lparr>streamId = 0, payload = [0, 0, 0, 1]\<rparr>],
     outgoing = []\<rparr>)) = [\<lparr>streamId = 0, payload = [0, 0, 0, 0]\<rparr>]"
proof -
  let ?bad = "\<lparr>streamId = 0, payload = [0, 0, 0, 1]\<rparr>"
  let ?good = "\<lparr>streamId = 0, payload = [0, 0, 0, 0]\<rparr>"
  have d1: "VersionMsg_deserialize (payload ?bad) 0 = Inr (\<lparr>msgVersion = 1\<rparr>, [])"
    and d0: "VersionMsg_deserialize (payload ?good) 0 = Inr (\<lparr>msgVersion = 0\<rparr>, [])"
    by (simp_all add: VersionMsg_deserialize_def)
  have s: "VersionMsg_serialize \<lparr>msgVersion = 0\<rparr> 0 = [0, 0, 0, 0]"
    by (simp add: VersionMsg_serialize_def encode_u32_def)
  have good: "fst (Peer_ctor \<lparr>incoming = [?good], outgoing = []\<rparr>) =
     Inr \<lparr>peerVersion = 0, peerSock =
           \<lparr>incoming = [], outgoing = [\<lparr>streamId = 0, payload = [0, 0, 0, 0]\<rparr>]\<rparr>\<rparr>"
    by (simp add: Peer_ctor_def getVersion_def SctpSock_send_def stream_ids Channel_recv_def
        VersionMsg_deserialize_def s)
  from Peer_ctor_handshake[of "\<lparr>incoming = [?bad], outgoing = []\<rparr>" ?bad "[]"
      "\<lparr>msgVersion = 1\<rparr>" "[]"] d1 s
    Peer_ctor_handshake[of "\<lparr>incoming = [?good], outgoing = []\<rparr>" ?good "[]"
      "\<lparr>msgVersion = 0\<rparr>" "[]"] d0 good
  show ?thesis by simp
qed

section \<open>Latent chunks, message identifiers and the codec\<close>

text \<open>
  Claim C1. In the peer's receive loop and in the multicast receive loop, when the
  upcall that was given a latent chunk returns normally, the loop throws a LogicError if
  the chunk still has data, and goes on with the next message only if it has none.
\<close>

theorem latent_chunk_drain_check:
  "(SctpSock_getSize (m # ms) \<noteq> 0 \<and> streamId m = 5 \<and>
    Channel_recv (LatentChunk_deserialize c) m v = Inr chunk \<and>
    recvData rcvr chunk a = Inr (a', chunk') \<longrightarrow>
      runReceiver rcvr c v a (m # ms) =
        (if hasData chunk' then Inl (LogicError ChunkStillHasData)
         else runReceiver rcvr c v a' ms)) \<and>
   (LatentChunk_deserialize c rest v = Inr (mchunk, rest') \<and>
    receiveChunk mrcvr mchunk b = Inr (b', mchunk') \<longrightarrow>
      McastReceiver_run mrcvr c v b ((chunkMsgId # rest) # ds) =
        (if hasData mchunk' then Raised (LogicError ChunkNotDrained)
         else McastReceiver_run mrcvr c v b' ds))"
  by (simp add: dispatch_def stream_ids mcastIteration_def chunkMsgId_def prodInfoMsgId_def)

theorem latent_chunk_drain_check_witness:
  "runReceiver defaultMsgRcvr initCanonSize 0 (0::nat)
     [\<lparr>streamId = 5, payload = [0, 0, 0, 7, 0, 0, 0, 3, 0, 0, 0, 0, 1, 2, 3]\<rparr>] =
     Inl (LogicError ChunkStillHasData) \<and>
   runReceiver PerfMsgRcvr initCanonSize 0 (0::nat)
     [\<lparr>streamId = 5, payload = [0, 0, 0, 7, 0, 0, 0, 3, 0, 0, 0, 0, 1, 2, 3]\<rparr>] = Inr 0 \<and>
   McastReceiver_run
     \<lparr>receiveInfo = (\<lambda>info n. Inr n), receiveChunk = (\<lambda>chunk n. Inr (Suc n, chunk))\<rparr>
     initCanonSize 0 (0::nat) [[2, 0, 0, 0, 7, 0, 0, 0, 3, 0, 0, 0, 0, 1, 2, 3]] =
     Raised (LogicError ChunkNotDrained) \<and>
   McastReceiver_run
     \<lparr>receiveInfo = (\<lambda>info n. Inr n),
      receiveChunk = (\<lambda>chunk n. Inr (Suc n, snd (drainData chunk)))\<rparr>
     initCanonSize 0 (0::nat) [[2, 0, 0, 0, 7, 0, 0, 0, 3, 0, 0, 0, 0, 1, 2, 3]] = Waiting 1"
proof -
  let ?bytes = "[0, 0, 0, 7, 0, 0, 0, 3, 0, 0, 0, 0, 1, 2, 3] :: byte list"
  let ?m = "\<lparr>streamId = 5, payload = ?bytes\<rparr>"
  let ?chunk = "\<lparr>latentInfo = \<lparr>prodIndex = 7, prodSize = 3, chunkIndex = 0, hashCode = 0\<rparr>,
           latentData = [1, 2, 3], hasData = True\<rparr>"
  let ?keep = "\<lparr>receiveInfo = (\<lambda>info n. Inr n),
     receiveChunk = (\<lambda>chunk n. Inr (Suc n, chunk))\<rparr> :: nat McastContentRcvr"
  let ?drain = "\<lparr>receiveInfo = (\<lambda>info n. Inr n),
     receiveChunk = (\<lambda>chunk n. Inr (Suc n, snd (drainData chunk)))\<rparr> :: nat McastContentRcvr"
  have sz: "SctpSock_getSize [?m] \<noteq> 0"
    by (simp add: SctpSock_getSize_def)
  have d: "LatentChunk_deserialize initCanonSize ?bytes 0 = Inr (?chunk, [])"
    by (simp add: LatentChunk_deserialize_def ChunkInfo_deserialize_def
        ChunkInfo_decode_def ProdIndex_deserialize_def ChunkInfo_ctor_def)
  then have r: "Channel_recv (LatentChunk_deserialize initCanonSize) ?m 0 = Inr ?chunk"
    by (simp add: Channel_recv_def)
  have u1: "recvData defaultMsgRcvr ?chunk (0::nat) = Inr (0, ?chunk)"
    by (simp add: defaultMsgRcvr_def)
  have u2: "recvData PerfMsgRcvr ?chunk (0::nat) = Inr (0, discard ?chunk)"
    by (simp add: PerfMsgRcvr_def)
  have u3: "receiveChunk ?keep ?chunk 0 = Inr (1, ?chunk)" by simp
  have u4: "receiveChunk ?drain ?chunk 0 = Inr (1, snd (drainData ?chunk))" by simp
  have id: "[2, 0, 0, 0, 7, 0, 0, 0, 3, 0, 0, 0, 0, 1, 2, 3] = chunkMsgId # ?bytes"
    by (simp add: chunkMsgId_def)
  note p1 = latent_chunk_drain_check[of ?m "[]" initCanonSize 0 ?chunk defaultMsgRcvr
      "0::nat" 0 ?chunk ?bytes ?chunk "[]" ?keep 0 1 ?chunk "[]"]
  note p2 = latent_chunk_drain_check[of ?m "[]" initCanonSize 0 ?chunk PerfMsgRcvr
      "0::nat" 0 "discard ?chunk" ?bytes ?chunk "[]" ?drain 0 1 "snd (drainData ?chunk)" "[]"]
  from p1 p2 sz d r u1 u2 u3 u4 show ?thesis
    unfolding id by (simp add: discard_def drainData_def)
qed

text \<open>
  Claim C9. A datagram whose first byte is neither the product-information identifier
  nor the chunk identifier makes the multicast receive loop throw the RuntimeError for
  an invalid message type, whatever the receiver and the rest of the datagram are.
\<close>

theorem invalid_message_type:
  "msgId \<noteq> prodInfoMsgId \<and> msgId \<noteq> chunkMsgId \<longrightarrow>
     mcastIteration rcvr c v a (msgId # rest) = Inl (RuntimeError (InvalidMessageType msgId)) \<and>
     McastReceiver_run rcvr c v a ((msgId # rest) # ds) =
       Raised (RuntimeError (InvalidMessageType msgId))"
  by (simp add: mcastIteration_def)

theorem invalid_message_type_witness:
  "McastReceiver_run
     \<lparr>receiveInfo = (\<lambda>info n. Inr (Suc n)),
      receiveChunk = (\<lambda>chunk n. Inr (Suc n, discard chunk))\<rparr>
     initCanonSize 0 (0::nat) [[3, 0, 0, 0, 7], [1]] = Raised (RuntimeError (InvalidMessageType 3))"
  using invalid_message_type[of 3
     "\<lparr>receiveInfo = (\<lambda>info n. Inr (Suc n)),
       receiveChunk = (\<lambda>chunk n. Inr (Suc n, discard chunk))\<rparr> :: nat McastContentRcvr"
     initCanonSize 0 0 "[0, 0, 0, 7]" "[[1]]"]
  by (simp add: prodInfoMsgId_def chunkMsgId_def)

lemma join32: "push_bit 24 (ucast (ucast (drop_bit 24 w) :: 8 word)) OR
   push_bit 16 (ucast (ucast (drop_bit 16 w) :: 8 word)) OR
   push_bit 8 (ucast (ucast (drop_bit 8 w) :: 8 word)) OR
   ucast (ucast w :: 8 word) = (w :: 32 word)"
proof (rule bit_word_eqI)
  fix n assume n: "n < LENGTH(32)"
  consider "n < 8" | "8 \<le> n" "n < 16" | "16 \<le> n" "n < 24" | "24 \<le> n" by linarith
  then show "bit (push_bit 24 (ucast (ucast (drop_bit 24 w) :: 8 word)) OR
   push_bit 16 (ucast (ucast (drop_bit 16 w) :: 8 word)) OR
   push_bit 8 (ucast (ucast (drop_bit 8 w) :: 8 word)) OR
   ucast (ucast w :: 8 word) :: 32 word) n = bit w n"
    using n by cases (auto simp add: bit_simps)
qed

lemma join16: "push_bit 8 (ucast (ucast (drop_bit 8 w) :: 8 word)) OR
   ucast (ucast w :: 8 word) = (w :: 16 word)"
proof (rule bit_word_eqI)
  fix n assume n: "n < LENGTH(16)"
  consider "n < 8" | "8 \<le> n" by linarith
  then show "bit (push_bit 8 (ucast (ucast (drop_bit 8 w) :: 8 word)) OR
   ucast (ucast w :: 8 word) :: 16 word) n = bit w n"
    using n by cases (auto simp add: bit_simps)
qed

lemma decode_encode_u32: "decode_u32 (encode_u32 w @ rest) = Inr (w, rest)"
  by (simp add: encode_u32_def join32)

lemma decode_encode_u16: "decode_u16 (encode_u16 w @ rest) = Inr (w, rest)"
  by (simp add: encode_u16_def join16)

lemma decode_encode_string:
  assumes "length s \<le> 65535"
  shows "decode_string (encode_string s @ rest) = Inr (s, rest)"
proof -
  have "unat (word_of_nat (length s) :: 16 word) = length s"
    using assms by (simp add: unat_of_nat)
  then show ?thesis
    by (simp add: decode_string_def encode_string_def decode_encode_u16)
qed

lemma ProdIndex_roundtrip:
  "ProdIndex_deserialize (ProdIndex_serialize x v @ rest) v = Inr (x, rest)"
  by (simp add: ProdIndex_deserialize_def ProdIndex_serialize_def decode_encode_u32)

lemma VersionMsg_roundtrip:
  "VersionMsg_deserialize (VersionMsg_serialize x v @ rest) v = Inr (x, rest)"
  by (simp add: VersionMsg_deserialize_def VersionMsg_serialize_def decode_encode_u32)

lemma ProdInfo_roundtrip:
  assumes "length (infoName x) \<le> 65535"
  shows "ProdInfo_deserialize (ProdInfo_serialize x v @ rest) v = Inr (x, rest)"
  by (simp add: ProdInfo_deserialize_def ProdInfo_serialize_def decode_encode_string[OF assms]
      ProdIndex_roundtrip decode_encode_u32 decode_encode_u16)

lemma ChunkInfo_decode_serialize:
  "ChunkInfo_decode (ChunkInfo_serialize x v @ rest) v =
     Inr (\<lparr>prodIndex = prodIndex x, prodSize = prodSize x, chunkIndex = chunkIndex x,
          hashCode = 0\<rparr>, rest)"
  by (simp add: ChunkInfo_decode_def ChunkInfo_serialize_def ProdIndex_roundtrip decode_encode_u32)

lemma ChunkInfo_roundtrip:
  assumes "ChunkInfo_ctor c (prodIndex x) (prodSize x) (chunkIndex x) = Inr y"
  shows "ChunkInfo_deserialize c (ChunkInfo_serialize x v @ rest) v = Inr (y, rest) \<and>
         ChunkInfo_eq y x"
  using assms
  by (auto simp: ChunkInfo_deserialize_def ChunkInfo_decode_serialize ChunkInfo_eq_def
      ChunkInfo_ctor_def split: if_splits)

lemma ChunkInfo_roundtrip_invalid:
  assumes "ChunkInfo_ctor c (prodIndex x) (prodSize x) (chunkIndex x) = Inl e"
  shows "ChunkInfo_deserialize c (ChunkInfo_serialize x v @ rest) v = Inl e"
  using assms
  by (auto simp: ChunkInfo_deserialize_def ChunkInfo_decode_serialize)

text \<open>
  Claim C6. Deserializing the serialization is to give back the value, for every value
  and protocol version. It does for a ProdInfo whose name is at most 65535 bytes long,
  for a ProdIndex, for a VersionMsg and for a ChunkInfo whose fields the constructor
  accepts, by the lemmas above. The ChunkInfo of chunk 1 of a product of size
  \<open>2 ^ 32 - 1\<close> has its index below the chunk count, 131105, and deserializing its
  serialization throws InvalidArgument: \<^verbatim>\<open>deserialize\<close> builds its result with the
  checking constructor, whose chunk count for this size wraps to 0.
\<close>

theorem ChunkInfo_roundtrip_wraps:
  "unat (1 :: ChunkIndex) < ceilDiv (unat (0xFFFFFFFF :: ProdSize)) (unat initCanonSize) \<and>
   ChunkInfo_serialize
     \<lparr>prodIndex = 0, prodSize = 0xFFFFFFFF, chunkIndex = 1, hashCode = 0\<rparr> 0 =
     [0, 0, 0, 0, 255, 255, 255, 255, 0, 0, 0, 1] \<and>
   ChunkInfo_deserialize initCanonSize [0, 0, 0, 0, 255, 255, 255, 255, 0, 0, 0, 1] 0 =
     Inl (InvalidArgument ChunkIndexTooBig)"
  by (simp add: ceilDiv_def initCanonSize_def ChunkInfo_serialize_def ProdIndex_serialize_def
      encode_u32_def ChunkInfo_deserialize_def ChunkInfo_decode_def ProdIndex_deserialize_def
      ChunkInfo_ctor_def numChunks_def)

section \<open>The product store\<close>

lemma status_flags:
  "isComplete (statusOf (setNew AddStatus_init) e) = complete e"
  "isComplete (statusOf (setDuplicate AddStatus_init) e) = complete e"
  "isComplete (statusOf AddStatus_init e) = complete e"
  "isDuplicate (statusOf (setNew AddStatus_init) e) = False"
  "isDuplicate (statusOf (setDuplicate AddStatus_init) e) = True"
  "isDuplicate (statusOf AddStatus_init e) = False"
  by (simp_all add: isComplete_def isDuplicate_def statusOf_def setNew_def setDuplicate_def
      setComplete_def AddStatus_init_def IS_NEW_def IS_COMPLETE_def IS_DUPLICATE_def)

lemma isWhole_complete_update: "isWhole (e\<lparr>complete := b\<rparr>) = isWhole e"
  by (simp add: isWhole_def cong: option.case_cong)

lemma done_iff:
  assumes "agrees info store"
  shows "isDone store (infoIndex info) \<longleftrightarrow>
     infoKnown store (infoIndex info) \<and> {..<chunkCount info} \<subseteq> presentOf store (infoIndex info)"
  using assms
  by (auto simp: agrees_def isDone_def infoKnown_def presentOf_def isWhole_def
      split: option.splits)

lemma stepOk_created:
  assumes "entries store (infoIndex info) = None"
    and "entryInfo e = (if isInfo then Some info else None)"
    and "present e = chunks" and "complete e = isWhole e"
  shows "stepOk info store isInfo chunks
     ((statusOf (setNew AddStatus_init) e, if complete e \<or> \<not> isInfo then Some e else None),
      store\<lparr>entries := (entries store)(infoIndex info \<mapsto> e), fifo := q\<rparr>)"
  using assms
  by (auto simp: stepOk_def agrees_def infoKnown_def presentOf_def isDone_def status_flags)

lemma stepOk_duplicate:
  assumes "agrees info store" and "entries store (infoIndex info) = Some old"
    and "isInfo \<longrightarrow> entryInfo old \<noteq> None" and "chunks \<subseteq> present old"
  shows "stepOk info store isInfo chunks
     ((statusOf (setDuplicate AddStatus_init) old, out), store)"
  using assms
  by (auto simp: stepOk_def agrees_def infoKnown_def presentOf_def isDone_def status_flags)

lemma stepOk_merged:
  assumes "agrees info store" and "entries store (infoIndex info) = Some old"
    and "\<not> complete old"
    and "entryInfo e = (if isInfo then Some info else entryInfo old)"
    and "present e = chunks \<union> present old" and "complete e = isWhole e"
  shows "stepOk info store isInfo chunks
     ((statusOf AddStatus_init e, if complete e \<or> \<not> isInfo then Some e else None),
      store\<lparr>entries := (entries store)(infoIndex info \<mapsto> e)\<rparr>)"
  using assms
  by (auto simp: stepOk_def agrees_def infoKnown_def presentOf_def isDone_def status_flags)

lemma addInfo_step:
  assumes "agrees info store"
  shows "stepOk info store True {} (addInfo info store)"
proof (cases "entries store (infoIndex info)")
  case None
  let ?e0 = "\<lparr>entryInfo = Some info, present = {},
              buffer = replicate (unat (infoSize info)) 0, early = [], complete = False\<rparr>"
  let ?e = "?e0\<lparr>complete := isWhole ?e0\<rparr>"
  have "addInfo info store =
     ((statusOf (setNew AddStatus_init) ?e, if complete ?e \<or> \<not> True then Some ?e else None),
      store\<lparr>entries := (entries store)(infoIndex info \<mapsto> ?e),
            fifo := fifo store @ [infoIndex info]\<rparr>)"
    using None by (simp add: addInfo_def Let_def)
  moreover have "complete ?e = isWhole ?e" by (simp add: isWhole_def)
  ultimately show ?thesis
    using stepOk_created[OF None, of ?e True "{}"] by simp
next
  case (Some old)
  note old = this
  show ?thesis
  proof (cases "entryInfo old")
    case (Some known)
    have "addInfo info store =
       ((statusOf (setDuplicate AddStatus_init) old, if complete old then Some old else None),
        store)"
      using old Some by (simp add: addInfo_def Let_def)
    then show ?thesis
      using stepOk_duplicate[OF assms old, of True "{}"] Some by simp
  next
    case None
    let ?e1 = "old\<lparr>entryInfo := Some info,
                   buffer := copyEarly info (early old) (replicate (unat (infoSize info)) 0),
                   early := []\<rparr>"
    let ?e = "?e1\<lparr>complete := isWhole ?e1\<rparr>"
    have r: "addInfo info store =
       ((statusOf AddStatus_init ?e, if complete ?e \<or> \<not> True then Some ?e else None),
        store\<lparr>entries := (entries store)(infoIndex info \<mapsto> ?e)\<rparr>)"
      using old None by (simp add: addInfo_def Let_def)
    have nd: "\<not> complete old"
      using assms old None by (simp add: agrees_def isWhole_def)
    have w: "complete ?e = isWhole ?e" by (simp add: isWhole_complete_update)
    show ?thesis
      unfolding r
      by (rule stepOk_merged[OF assms old nd _ _ w]) simp_all
  qed
qed

lemma addChunk_step:
  assumes "agrees info store"
    and "prodIndex (latentInfo chunk) = infoIndex info"
    and "unat (chunkIndex (latentInfo chunk)) < chunkCount info"
  shows "stepOk info store False {unat (chunkIndex (latentInfo chunk))}
     (fst (addChunk chunk store))"
proof (cases "entries store (infoIndex info)")
  case None
  let ?i = "unat (chunkIndex (latentInfo chunk))"
  let ?e = "\<lparr>entryInfo = None, present = {?i}, buffer = [],
             early = [(?i, latentData chunk)], complete = False\<rparr>"
  have "fst (addChunk chunk store) =
     ((statusOf (setNew AddStatus_init) ?e, if complete ?e \<or> \<not> False then Some ?e else None),
      store\<lparr>entries := (entries store)(infoIndex info \<mapsto> ?e),
            fifo := fifo store @ [infoIndex info]\<rparr>)"
    using None assms(2) by (simp add: addChunk_def Let_def drainData_def)
  moreover have "complete ?e = isWhole ?e" by (simp add: isWhole_def)
  ultimately show ?thesis
    using stepOk_created[OF None, of ?e False "{?i}"] by simp
next
  case (Some old)
  note old = this
  let ?i = "unat (chunkIndex (latentInfo chunk))"
  show ?thesis
  proof (cases "?i \<in> present old")
    case True
    have "fst (addChunk chunk store) =
       ((statusOf (setDuplicate AddStatus_init) old, Some old), store)"
      using old True assms(2) by (simp add: addChunk_def Let_def)
    then show ?thesis
      using stepOk_duplicate[OF assms(1) old, of False "{?i}"] True by simp
  next
    case False
    note fresh = this
    have nd: "\<not> complete old"
      using assms(1,3) old fresh
      by (auto simp: agrees_def isWhole_def split: option.splits)
    show ?thesis
    proof (cases "entryInfo old")
      case None
      let ?e = "old\<lparr>present := insert ?i (present old),
                    early := early old @ [(?i, latentData chunk)]\<rparr>"
      have r: "fst (addChunk chunk store) =
         ((statusOf AddStatus_init ?e, if complete ?e \<or> \<not> False then Some ?e else None),
          store\<lparr>entries := (entries store)(infoIndex info \<mapsto> ?e)\<rparr>)"
        using old fresh None assms(2) by (simp add: addChunk_def Let_def drainData_def)
      have w: "complete ?e = isWhole ?e"
        using nd None by (simp add: isWhole_def)
      show ?thesis
        unfolding r
        by (rule stepOk_merged[OF assms(1) old nd _ _ w]) simp_all
    next
      case (Some known)
      with old assms(1) have k: "known = info" by (simp add: agrees_def)
      let ?e1 = "old\<lparr>present := insert ?i (present old),
                     buffer := writeAt (buffer old) (?i * unat (infoChunkSize info))
                                 (latentData chunk)\<rparr>"
      let ?e = "?e1\<lparr>complete := isWhole ?e1\<rparr>"
      have r: "fst (addChunk chunk store) =
         ((statusOf AddStatus_init ?e, if complete ?e \<or> \<not> False then Some ?e else None),
          store\<lparr>entries := (entries store)(infoIndex info \<mapsto> ?e)\<rparr>)"
        using old fresh Some k assms(2,3)
        by (simp add: addChunk_def Let_def drainData_def)
      have w: "complete ?e = isWhole ?e" by (simp add: isWhole_complete_update)
      show ?thesis
        unfolding r
        by (rule stepOk_merged[OF assms(1) old nd _ _ w]) simp_all
    qed
  qed
qed

lemma applyOp_step:
  assumes "agrees info store" and "opFor info op"
  shows "stepOk info store (opIsInfo op) (opChunks op) (applyOp op store)"
proof (cases op)
  case (AddInfo x)
  with assms(2) have "x = info" by (simp add: opFor_def)
  with AddInfo show ?thesis
    using addInfo_step[OF assms(1)] by (simp add: applyOp_def opIsInfo_def opChunks_def)
next
  case (AddChunk chunk)
  with assms(2) show ?thesis
    using addChunk_step[OF assms(1), of chunk]
    by (simp add: applyOp_def opIsInfo_def opChunks_def opFor_def)
qed

lemma runOps_Cons:
  "runOps store (op # ops) =
     (fst (applyOp op store) # fst (runOps (snd (applyOp op store)) ops),
      snd (runOps (snd (applyOp op store)) ops))"
  by (simp add: split_def Let_def)

lemma length_runOps: "length (fst (runOps store ops)) = length ops"
  by (induction ops arbitrary: store) (simp_all add: split_def Let_def)

lemma storeAfter_simps:
  "storeAfter store ops 0 = store"
  "storeAfter store (op # ops) (Suc k) = storeAfter (snd (applyOp op store)) ops k"
  by (simp_all add: storeAfter_def split_def Let_def)

lemma statusAt_simps:
  "statusAt store (op # ops) 0 = fst (fst (applyOp op store))"
  "statusAt store (op # ops) (Suc j) = statusAt (snd (applyOp op store)) ops j"
  by (simp_all add: statusAt_def split_def Let_def)

lemma outAt_simps:
  "outAt store (op # ops) 0 = snd (fst (applyOp op store))"
  "outAt store (op # ops) (Suc j) = outAt (snd (applyOp op store)) ops j"
  by (simp_all add: outAt_def split_def Let_def)

lemma run_done:
  assumes "agrees info store" and "isDone store (infoIndex info)"
    and "\<forall>op \<in> set ops. opFor info op"
  shows "snd (runOps store ops) = store \<and>
     (\<forall>r \<in> set (fst (runOps store ops)). isComplete (fst r) \<and> isDuplicate (fst r))"
  using assms
proof (induction ops)
  case Nil
  then show ?case by simp
next
  case (Cons op ops)
  from Cons.prems have "stepOk info store (opIsInfo op) (opChunks op) (applyOp op store)"
    by (intro applyOp_step) simp_all
  with Cons.prems(2) have st: "snd (applyOp op store) = store"
    and fl: "isComplete (fst (fst (applyOp op store)))" "isDuplicate (fst (fst (applyOp op store)))"
    by (simp_all add: stepOk_def Let_def)
  from Cons.IH Cons.prems have "snd (runOps store ops) = store \<and>
     (\<forall>r \<in> set (fst (runOps store ops)). isComplete (fst r) \<and> isDuplicate (fst r))"
    by simp
  with st fl show ?case by (simp add: runOps_Cons del: runOps.simps)
qed

lemma done_after:
  assumes "agrees info store" and "isDone store (infoIndex info)"
    and "\<forall>op \<in> set ops. opFor info op"
  shows "storeAfter store ops k = store"
    and "j < length ops \<Longrightarrow> isComplete (statusAt store ops j) \<and> isDuplicate (statusAt store ops j)"
proof -
  have "\<forall>op \<in> set (take k ops). opFor info op"
    using assms(3) by (meson in_set_takeD)
  from run_done[OF assms(1,2) this] show "storeAfter store ops k = store"
    by (simp add: storeAfter_def)
  assume "j < length ops"
  then have "fst (runOps store ops) ! j \<in> set (fst (runOps store ops))"
    by (simp add: length_runOps)
  with run_done[OF assms] show
    "isComplete (statusAt store ops j) \<and> isDuplicate (statusAt store ops j)"
    by (simp add: statusAt_def)
qed

lemma run_completes:
  assumes "agrees info store" and "\<not> isDone store (infoIndex info)"
    and "\<forall>op \<in> set ops. opFor info op"
    and "\<not> infoKnown store (infoIndex info) \<longrightarrow> (\<exists>op \<in> set ops. opIsInfo op)"
    and "\<forall>i < chunkCount info. i \<notin> presentOf store (infoIndex info) \<longrightarrow>
           (\<exists>op \<in> set ops. i \<in> opChunks op)"
  shows "\<exists>k0 < length ops. completesAt info store ops k0"
  using assms
proof (induction ops arbitrary: store)
  case Nil
  from Nil.prems(1,2) have
    "\<not> infoKnown store (infoIndex info) \<or>
     \<not> {..<chunkCount info} \<subseteq> presentOf store (infoIndex info)"
    by (simp add: done_iff)
  with Nil.prems(4,5) show ?case by auto
next
  case (Cons op ops)
  let ?p = "infoIndex info"
  let ?r = "applyOp op store"
  let ?store' = "snd ?r"
  from Cons.prems(1,3) have "stepOk info store (opIsInfo op) (opChunks op) ?r"
    by (intro applyOp_step) simp_all
  then have ag: "agrees info ?store'"
    and known: "infoKnown ?store' ?p = (infoKnown store ?p \<or> opIsInfo op)"
    and pres: "presentOf ?store' ?p = opChunks op \<union> presentOf store ?p"
    and compl: "isComplete (fst (fst ?r)) = isDone ?store' ?p"
    and trans: "\<not> isDone store ?p \<and> isDone ?store' ?p \<longrightarrow>
        \<not> isDuplicate (fst (fst ?r)) \<and> snd (fst ?r) \<noteq> None \<and>
        snd (fst ?r) = entries ?store' ?p"
    unfolding stepOk_def Let_def by blast+
  from Cons.prems(3) have valid: "\<forall>op \<in> set ops. opFor info op" by simp
  show ?case
  proof (cases "isDone ?store' ?p")
    case True
    note after = done_after[OF ag True valid]
    from trans True Cons.prems(2) have nodup: "\<not> isDuplicate (fst (fst ?r))"
      and out1: "snd (fst ?r) \<noteq> None" and out2: "snd (fst ?r) = entries ?store' ?p"
      by blast+
    have "completesAt info store (op # ops) 0"
      unfolding completesAt_def
    proof (intro conjI allI impI)
      fix k assume "k \<le> length (op # ops)"
      show "isDone (storeAfter store (op # ops) k) ?p \<longleftrightarrow> 0 < k"
        using Cons.prems(2) True after(1) by (cases k) (simp_all add: storeAfter_simps)
    next
      fix j assume "j < length (op # ops)"
      then show "isComplete (statusAt store (op # ops) j) \<longleftrightarrow> 0 \<le> j"
        using compl True after(2) by (cases j) (simp_all add: statusAt_simps)
    next
      show "\<not> isDuplicate (statusAt store (op # ops) 0)"
        using nodup by (simp add: statusAt_simps)
      show "outAt store (op # ops) 0 \<noteq> None"
        using out1 by (simp add: outAt_simps)
      show "outAt store (op # ops) 0 = entries (storeAfter store (op # ops) (Suc 0)) ?p"
        using out2 by (simp add: outAt_simps storeAfter_simps)
    next
      fix j assume j: "0 < j \<and> j < length (op # ops)"
      then obtain j' where j': "j = Suc j'" "j' < length ops" by (cases j) auto
      show "isDuplicate (statusAt store (op # ops) j)"
        using after(2)[OF j'(2)] j' by (simp add: statusAt_simps)
      show "storeAfter store (op # ops) (Suc j) = storeAfter store (op # ops) j"
        using after(1) j' by (simp add: storeAfter_simps)
    qed
    then show ?thesis by auto
  next
    case False
    have c1: "\<not> infoKnown ?store' ?p \<longrightarrow> (\<exists>op \<in> set ops. opIsInfo op)"
      using Cons.prems(4) known by auto
    have c2: "\<forall>i < chunkCount info. i \<notin> presentOf ?store' ?p \<longrightarrow>
           (\<exists>op \<in> set ops. i \<in> opChunks op)"
      using Cons.prems(5) pres by auto
    from Cons.IH[OF ag False valid c1 c2] obtain k0 where
      k0: "k0 < length ops" and at: "completesAt info ?store' ops k0"
      by blast
    from at have a1: "\<forall>k \<le> length ops. isDone (storeAfter ?store' ops k) ?p \<longleftrightarrow> k0 < k"
      and a2: "\<forall>j < length ops. isComplete (statusAt ?store' ops j) \<longleftrightarrow> k0 \<le> j"
      and a3: "\<not> isDuplicate (statusAt ?store' ops k0)"
      and a4: "outAt ?store' ops k0 \<noteq> None"
      and a5: "outAt ?store' ops k0 = entries (storeAfter ?store' ops (Suc k0)) ?p"
      and a6: "\<forall>j. k0 < j \<and> j < length ops \<longrightarrow>
         isDuplicate (statusAt ?store' ops j) \<and>
         storeAfter ?store' ops (Suc j) = storeAfter ?store' ops j"
      unfolding completesAt_def by blast+
    have "completesAt info store (op # ops) (Suc k0)"
      unfolding completesAt_def
    proof (intro conjI allI impI)
      fix k assume "k \<le> length (op # ops)"
      then show "isDone (storeAfter store (op # ops) k) ?p \<longleftrightarrow> Suc k0 < k"
        using Cons.prems(2) a1 by (cases k) (simp_all add: storeAfter_simps)
    next
      fix j assume "j < length (op # ops)"
      then show "isComplete (statusAt store (op # ops) j) \<longleftrightarrow> Suc k0 \<le> j"
        using compl False a2 by (cases j) (simp_all add: statusAt_simps)
    next
      show "\<not> isDuplicate (statusAt store (op # ops) (Suc k0))"
        using a3 by (simp add: statusAt_simps)
      show "outAt store (op # ops) (Suc k0) \<noteq> None"
        using a4 by (simp add: outAt_simps)
      show "outAt store (op # ops) (Suc k0) =
          entries (storeAfter store (op # ops) (Suc (Suc k0))) ?p"
        using a5 by (simp add: outAt_simps storeAfter_simps)
    next
      fix j assume j: "Suc k0 < j \<and> j < length (op # ops)"
      then obtain j' where j': "j = Suc j'" "k0 < j'" "j' < length ops" by (cases j) auto
      from a6 j'(2,3) have "isDuplicate (statusAt ?store' ops j') \<and>
         storeAfter ?store' ops (Suc j') = storeAfter ?store' ops j'"
        by simp
      then show "isDuplicate (statusAt store (op # ops) j)"
        and "storeAfter store (op # ops) (Suc j) = storeAfter store (op # ops) j"
        using j'(1) by (simp_all add: statusAt_simps storeAfter_simps)
    qed
    with k0 show ?thesis by auto
  qed
qed

section \<open>Completion and idempotence of the product store\<close>

text \<open>
  Claim C2. Let the store have no entry for a product, and let a list of additions for
  that product hold its ProdInfo and a chunk for every index below its chunk count, in
  any order and with any repetitions. Then one addition of the list is the transition:
  the entry is incomplete up to it and complete after it; it is the first addition to
  report isComplete, it reports no duplicate and it sets the out-parameter to the entry;
  and every later addition reports both isComplete and isDuplicate and leaves the store
  as it was.
\<close>

theorem completion_exactly_once:
  assumes "entries store (infoIndex info) = None"
    and "\<forall>op \<in> set ops. opFor info op"
    and "AddInfo info \<in> set ops"
    and "\<forall>i < chunkCount info. \<exists>op \<in> set ops. isChunkOp info i op"
  shows "\<exists>k0 < length ops. completesAt info store ops k0"
proof (rule run_completes)
  show "agrees info store" using assms(1) by (simp add: agrees_def)
  show "\<not> isDone store (infoIndex info)" using assms(1) by (simp add: isDone_def)
  show "\<forall>op \<in> set ops. opFor info op" by (rule assms(2))
  have "opIsInfo (AddInfo info)" by (simp add: opIsInfo_def)
  with assms(3) show "\<not> infoKnown store (infoIndex info) \<longrightarrow> (\<exists>op \<in> set ops. opIsInfo op)"
    by blast
  show "\<forall>i < chunkCount info. i \<notin> presentOf store (infoIndex info) \<longrightarrow>
           (\<exists>op \<in> set ops. i \<in> opChunks op)"
  proof (intro allI impI)
    fix i assume "i < chunkCount info"
    with assms(4) obtain op where op: "op \<in> set ops" "isChunkOp info i op" by blast
    from op(2) have "i \<in> opChunks op"
      by (cases op) (simp_all add: isChunkOp_def opChunks_def)
    with op(1) show "\<exists>op \<in> set ops. i \<in> opChunks op" by blast
  qed
qed

lemma addChunk_present:
  assumes "entries store (prodIndex (latentInfo chunk)) = Some e"
    and "unat (chunkIndex (latentInfo chunk)) \<in> present e"
  shows "addChunk chunk store =
     (((statusOf (setDuplicate AddStatus_init) e, Some e), store), discard chunk)"
  using assms by (simp add: addChunk_def Let_def)

lemma addChunk_refused:
  assumes "outOfRange store chunk" and "\<not> chunkPresent store chunk"
  shows "addChunk_store chunk store = store"
  using assms
  by (auto simp: outOfRange_def chunkPresent_def addChunk_store_def addChunk_def Let_def
      split: option.splits)

lemma addChunk_makes_present:
  "chunkPresent (addChunk_store chunk store) chunk \<or>
   (outOfRange store chunk \<and> addChunk_store chunk store = store)"
  by (auto simp: outOfRange_def chunkPresent_def addChunk_store_def addChunk_def Let_def
      drainData_def split: option.splits)

lemma chunkPresent_cong:
  "latentInfo chunk2 = latentInfo chunk \<Longrightarrow> chunkPresent store chunk2 = chunkPresent store chunk"
  by (simp add: chunkPresent_def split: option.splits)

lemma outOfRange_cong:
  "latentInfo chunk2 = latentInfo chunk \<Longrightarrow> outOfRange store chunk2 = outOfRange store chunk"
  by (simp add: outOfRange_def split: option.splits)

lemma addChunk_again:
  assumes "chunkPresent store chunk"
  shows "addChunk_store chunk store = store \<and> isDuplicate (addChunk_status chunk store) \<and>
     \<not> hasData (snd (addChunk chunk store))"
proof -
  from assms obtain e where e: "entries store (prodIndex (latentInfo chunk)) = Some e"
    "unat (chunkIndex (latentInfo chunk)) \<in> present e"
    by (auto simp: chunkPresent_def split: option.splits)
  show ?thesis
    unfolding addChunk_store_def addChunk_status_def addChunk_present[OF e]
    by (simp add: status_flags discard_def)
qed

text \<open>
  Claim C3. Adding a chunk that is present leaves the store as it was, reports
  isDuplicate and leaves the chunk empty. So a second addition of a chunk, with the
  same chunk information, leaves the store equal to the store after the first addition,
  in its entries with their buffers and sets of present chunks and in its order of
  insertion, and reports isDuplicate whenever the first addition has made the chunk
  present, which it has unless the chunk's index is out of range for its entry.
\<close>

theorem addChunk_idempotent:
  "(chunkPresent store chunk \<longrightarrow>
      addChunk_store chunk store = store \<and> isDuplicate (addChunk_status chunk store) \<and>
      \<not> hasData (snd (addChunk chunk store))) \<and>
   (latentInfo chunk2 = latentInfo chunk \<longrightarrow>
      addChunk_store chunk2 (addChunk_store chunk store) = addChunk_store chunk store \<and>
      (chunkPresent (addChunk_store chunk store) chunk \<longrightarrow>
         isDuplicate (addChunk_status chunk2 (addChunk_store chunk store))) \<and>
      (\<not> outOfRange store chunk \<longrightarrow>
         chunkPresent (addChunk_store chunk store) chunk))"
proof (intro conjI impI)
  assume "chunkPresent store chunk"
  from addChunk_again[OF this]
  show "addChunk_store chunk store = store" "isDuplicate (addChunk_status chunk store)"
    "\<not> hasData (snd (addChunk chunk store))"
    by simp_all
next
  assume same: "latentInfo chunk2 = latentInfo chunk"
  let ?store1 = "addChunk_store chunk store"
  show "addChunk_store chunk2 ?store1 = ?store1"
  proof (cases "chunkPresent ?store1 chunk")
    case True
    then have "chunkPresent ?store1 chunk2" by (simp add: chunkPresent_cong[OF same])
    from addChunk_again[OF this] show ?thesis by simp
  next
    case False
    with addChunk_makes_present[of chunk store]
    have o: "outOfRange store chunk" and u: "?store1 = store" by auto
    from False u have "\<not> chunkPresent store chunk2" by (simp add: chunkPresent_cong[OF same])
    moreover from o have "outOfRange store chunk2" by (simp add: outOfRange_cong[OF same])
    ultimately have "addChunk_store chunk2 store = store" by (intro addChunk_refused)
    with u show ?thesis by simp
  qed
  show "isDuplicate (addChunk_status chunk2 ?store1)" if "chunkPresent ?store1 chunk"
  proof -
    from that have "chunkPresent ?store1 chunk2" by (simp add: chunkPresent_cong[OF same])
    from addChunk_again[OF this] show ?thesis by simp
  qed
  show "chunkPresent ?store1 chunk" if "\<not> outOfRange store chunk"
    using that addChunk_makes_present[of chunk store] by blast
qed


lemmas store_eval =
  emptyStore_def applyOp_def addChunk_def addInfo_def Let_def drainData_def discard_def
  statusOf_def isWhole_def chunkCount_def ceilDiv_def setNew_def setComplete_def
  setDuplicate_def AddStatus_init_def IS_NEW_def IS_COMPLETE_def IS_DUPLICATE_def
  copyEarly_def writeAt_def

theorem completion_exactly_once_witness:
  "(\<exists>k0 < 6. completesAt
      \<lparr>infoName = [120], infoIndex = 1, infoSize = 10, infoChunkSize = 4\<rparr> emptyStore
      [AddChunk \<lparr>latentInfo = \<lparr>prodIndex = 1, prodSize = 10, chunkIndex = 2, hashCode = 0\<rparr>,
                 latentData = [3, 3], hasData = True\<rparr>,
       AddChunk \<lparr>latentInfo = \<lparr>prodIndex = 1, prodSize = 10, chunkIndex = 0, hashCode = 0\<rparr>,
                 latentData = [1, 1, 1, 1], hasData = True\<rparr>,
       AddInfo \<lparr>infoName = [120], infoIndex = 1, infoSize = 10, infoChunkSize = 4\<rparr>,
       AddChunk \<lparr>latentInfo = \<lparr>prodIndex = 1, prodSize = 10, chunkIndex = 1, hashCode = 0\<rparr>,
                 latentData = [2, 2, 2, 2], hasData = True\<rparr>,
       AddChunk \<lparr>latentInfo = \<lparr>prodIndex = 1, prodSize = 10, chunkIndex = 1, hashCode = 0\<rparr>,
                 latentData = [2, 2, 2, 2], hasData = True\<rparr>,
       AddInfo \<lparr>infoName = [120], infoIndex = 1, infoSize = 10, infoChunkSize = 4\<rparr>] k0) \<and>
   map fst (fst (runOps emptyStore
      [AddChunk \<lparr>latentInfo = \<lparr>prodIndex = 1, prodSize = 10, chunkIndex = 2, hashCode = 0\<rparr>,
                 latentData = [3, 3], hasData = True\<rparr>,
       AddChunk \<lparr>latentInfo = \<lparr>prodIndex = 1, prodSize = 10, chunkIndex = 0, hashCode = 0\<rparr>,
                 latentData = [1, 1, 1, 1], hasData = True\<rparr>,
       AddInfo \<lparr>infoName = [120], infoIndex = 1, infoSize = 10, infoChunkSize = 4\<rparr>,
       AddChunk \<lparr>latentInfo = \<lparr>prodIndex = 1, prodSize = 10, chunkIndex = 1, hashCode = 0\<rparr>,
                 latentData = [2, 2, 2, 2], hasData = True\<rparr>,
       AddChunk \<lparr>latentInfo = \<lparr>prodIndex = 1, prodSize = 10, chunkIndex = 1, hashCode = 0\<rparr>,
                 latentData = [2, 2, 2, 2], hasData = True\<rparr>,
       AddInfo \<lparr>infoName = [120], infoIndex = 1, infoSize = 10, infoChunkSize = 4\<rparr>])) =
     [2, 0, 0, 1, 5, 5]"
proof -
  let ?info = "\<lparr>infoName = [120], infoIndex = 1, infoSize = 10, infoChunkSize = 4\<rparr>"
  let ?c0 = "\<lparr>latentInfo = \<lparr>prodIndex = 1, prodSize = 10, chunkIndex = 0, hashCode = 0\<rparr>,
                 latentData = [1, 1, 1, 1], hasData = True\<rparr>"
  let ?c1 = "\<lparr>latentInfo = \<lparr>prodIndex = 1, prodSize = 10, chunkIndex = 1, hashCode = 0\<rparr>,
                 latentData = [2, 2, 2, 2], hasData = True\<rparr>"
  let ?c2 = "\<lparr>latentInfo = \<lparr>prodIndex = 1, prodSize = 10, chunkIndex = 2, hashCode = 0\<rparr>,
                 latentData = [3, 3], hasData = True\<rparr>"
  let ?ops = "[AddChunk ?c2, AddChunk ?c0, AddInfo ?info, AddChunk ?c1, AddChunk ?c1,
               AddInfo ?info]"
  have n: "chunkCount ?info = 3" by (simp add: chunkCount_def ceilDiv_def)
  have h1: "entries emptyStore (infoIndex ?info) = None" by (simp add: emptyStore_def)
  have h2: "\<forall>op \<in> set ?ops. opFor ?info op" by (simp add: opFor_def n)
  have h3: "AddInfo ?info \<in> set ?ops" by simp
  have h4: "\<forall>i < chunkCount ?info. \<exists>op \<in> set ?ops. isChunkOp ?info i op"
  proof (intro allI impI)
    fix i assume "i < chunkCount ?info"
    then consider "i = 0" | "i = 1" | "i = 2" unfolding n by linarith
    then show "\<exists>op \<in> set ?ops. isChunkOp ?info i op"
      by cases (simp_all add: isChunkOp_def)
  qed
  have run: "map fst (fst (runOps emptyStore ?ops)) = [2, 0, 0, 1, 5, 5]"
    by (simp add: store_eval numeral_3_eq_3 lessThan_Suc)
  have len: "length ?ops = 6" by simp
  have ex: "\<exists>k0 < 6. completesAt ?info emptyStore ?ops k0"
    using completion_exactly_once[OF h1 h2 h3 h4] by (simp only: len)
  show ?thesis by (rule conjI[OF ex run])
qed

theorem addChunk_idempotent_witness:
  "addChunk_store
     \<lparr>latentInfo = \<lparr>prodIndex = 1, prodSize = 10, chunkIndex = 1, hashCode = 0\<rparr>,
      latentData = [2, 2, 2, 2], hasData = True\<rparr>
     (addChunk_store
        \<lparr>latentInfo = \<lparr>prodIndex = 1, prodSize = 10, chunkIndex = 1, hashCode = 0\<rparr>,
         latentData = [2, 2, 2, 2], hasData = True\<rparr> emptyStore) =
   addChunk_store
     \<lparr>latentInfo = \<lparr>prodIndex = 1, prodSize = 10, chunkIndex = 1, hashCode = 0\<rparr>,
      latentData = [2, 2, 2, 2], hasData = True\<rparr> emptyStore \<and>
   isDuplicate (addChunk_status
     \<lparr>latentInfo = \<lparr>prodIndex = 1, prodSize = 10, chunkIndex = 1, hashCode = 0\<rparr>,
      latentData = [2, 2, 2, 2], hasData = True\<rparr>
     (addChunk_store
        \<lparr>latentInfo = \<lparr>prodIndex = 1, prodSize = 10, chunkIndex = 1, hashCode = 0\<rparr>,
         latentData = [2, 2, 2, 2], hasData = True\<rparr> emptyStore)) \<and>
   \<not> isDuplicate (addChunk_status
     \<lparr>latentInfo = \<lparr>prodIndex = 1, prodSize = 10, chunkIndex = 1, hashCode = 0\<rparr>,
      latentData = [2, 2, 2, 2], hasData = True\<rparr> emptyStore)"
proof -
  let ?c1 = "\<lparr>latentInfo = \<lparr>prodIndex = 1, prodSize = 10, chunkIndex = 1, hashCode = 0\<rparr>,
                 latentData = [2, 2, 2, 2], hasData = True\<rparr>"
  have h: "\<not> outOfRange emptyStore ?c1" by (simp add: outOfRange_def emptyStore_def)
  have first: "\<not> isDuplicate (addChunk_status ?c1 emptyStore)"
    by (simp add: addChunk_status_def isDuplicate_def store_eval)
  from addChunk_idempotent[of emptyStore ?c1 ?c1] h first show ?thesis by simp
qed

end
